theory Spec2Isabelle
  imports Complex_Main "HOL-Library.Sublist"
begin

section \<open>JavaScript values shared by all components\<close>

text \<open>
  Exceptions are values. A platform call that may throw returns \<open>js_error + 'a\<close>
  (\<open>Inl\<close> the thrown error), and every \<open>try { ... } catch\<close> of the source is a case
  distinction on that sum. A promise that has settled is \<open>Resolved v\<close> or \<open>Rejected e\<close>.
\<close>

datatype js_error =
    QuotaExceededError
  | SecurityError
  | InvalidCharacterError
  | SyntaxError
  | NetworkError
  | TypeError

datatype ('e, 'a) promise = Resolved 'a | Rejected 'e

section \<open>Storage Adapter (\<open>StorageService\<close>)\<close>

subsection \<open>The browser's \<open>localStorage\<close>\<close>

text \<open>
  \<open>localStorage\<close> is a platform object, not code of the repository. It is a map from keys
  to strings; each call may throw (quota exceeded, storage disabled, restricted frame).
  Whether a given call throws is decided by the environment, so every call takes the
  environment's decision as its first argument: \<open>Some e\<close> means the call throws \<open>e\<close> and
  leaves the store as it was.
\<close>

type_synonym store = "string \<rightharpoonup> string"

definition localStorage_getItem ::
  "js_error option \<Rightarrow> string \<Rightarrow> store \<Rightarrow> js_error + string option" where
  "localStorage_getItem fault key ls =
     (case fault of Some e \<Rightarrow> Inl e | None \<Rightarrow> Inr (ls key))"

definition localStorage_setItem ::
  "js_error option \<Rightarrow> string \<Rightarrow> string \<Rightarrow> store \<Rightarrow> js_error + store" where
  "localStorage_setItem fault key val ls =
     (case fault of Some e \<Rightarrow> Inl e | None \<Rightarrow> Inr (ls(key \<mapsto> val)))"

definition localStorage_removeItem ::
  "js_error option \<Rightarrow> string \<Rightarrow> store \<Rightarrow> js_error + store" where
  "localStorage_removeItem fault key ls =
     (case fault of Some e \<Rightarrow> Inl e | None \<Rightarrow> Inr (ls(key := None)))"


subsection \<open>The class\<close>

text \<open>
  The two private fields of \<open>StorageService\<close>. The adapter's world is the pair of the
  object and the browser's store. Every public method returns \<open>js_error + (result, world)\<close>
  so that an exception escaping the method would be visible as \<open>Inl\<close>.
\<close>

record StorageService =
  isAvailable :: bool
  memoryStorage :: store

type_synonym storage_world = "StorageService \<times> store"



text \<open>\<open>this.memoryStorage.get(key) || null\<close>: \<open>undefined\<close> and the empty string are falsy.\<close>

definition memory_get :: "StorageService \<Rightarrow> string \<Rightarrow> string option" where
  "memory_get s key =
     (case memoryStorage s key of
        None \<Rightarrow> None
      | Some v \<Rightarrow> (if v = [] then None else Some v))"

definition getItem ::
  "js_error option \<Rightarrow> string \<Rightarrow> storage_world \<Rightarrow> js_error + (string option \<times> storage_world)" where
  "getItem fault key w =
     (let (s, ls) = w in
      if isAvailable s then
        (case localStorage_getItem fault key ls of
           Inr v \<Rightarrow> Inr (v, s, ls)
         | Inl e \<Rightarrow> Inr (memory_get s key, s, ls))
      else Inr (memory_get s key, s, ls))"

definition setItem ::
  "js_error option \<Rightarrow> string \<Rightarrow> string \<Rightarrow> storage_world \<Rightarrow> js_error + (unit \<times> storage_world)" where
  "setItem fault key val w =
     (let (s, ls) = w in
      if isAvailable s then
        (case localStorage_setItem fault key val ls of
           Inr ls' \<Rightarrow> Inr ((), s, ls')
         | Inl e \<Rightarrow> Inr ((), s\<lparr>memoryStorage := (memoryStorage s)(key \<mapsto> val)\<rparr>, ls))
      else Inr ((), s\<lparr>memoryStorage := (memoryStorage s)(key \<mapsto> val)\<rparr>, ls))"

definition removeItem ::
  "js_error option \<Rightarrow> string \<Rightarrow> storage_world \<Rightarrow> js_error + (unit \<times> storage_world)" where
  "removeItem fault key w =
     (let (s, ls) = w in
      if isAvailable s then
        (case localStorage_removeItem fault key ls of
           Inr ls' \<Rightarrow> Inr ((), s, ls')
         | Inl e \<Rightarrow> Inr ((), s\<lparr>memoryStorage := (memoryStorage s)(key := None)\<rparr>, ls))
      else Inr ((), s\<lparr>memoryStorage := (memoryStorage s)(key := None)\<rparr>, ls))"


definition isUsingLocalStorage :: "storage_world \<Rightarrow> bool" where
  "isUsingLocalStorage w = isAvailable (fst w)"

text \<open>Two calls in a row: the second runs in the world the first one left.\<close>

definition set_then_get ::
  "js_error option \<Rightarrow> js_error option \<Rightarrow> string \<Rightarrow> string \<Rightarrow> storage_world
     \<Rightarrow> js_error + (string option \<times> storage_world)" where
  "set_then_get f1 f2 key val w =
     (case setItem f1 key val w of
        Inl e \<Rightarrow> Inl e
      | Inr (u, w') \<Rightarrow> getItem f2 key w')"






section \<open>Event Bus (\<open>AuthEventEmitter\<close>)\<close>

datatype AuthEventType = Logout | Unauthorized | TokenExpired

text \<open>
  A handler is a function object; the \<open>Set\<close> of the source compares handlers by identity,
  so a handler is named by a number here.

  The data of a JavaScript \<open>Set\<close> is its list of entries in insertion order. \<open>add\<close>
  appends a value that is not in the set, \<open>delete\<close> replaces the entry by an empty slot
  (\<open>None\<close>) and keeps the list's length, and \<open>forEach\<close> walks the list by index, reading
  the list again at every step and skipping empty slots. So an entry deleted before the
  walk reaches it is not visited, and an entry added during the walk is.
\<close>

type_synonym handler_id = nat
type_synonym set_data = "handler_id option list"

definition set_add :: "handler_id \<Rightarrow> set_data \<Rightarrow> set_data" where
  "set_add h es = (if Some h \<in> set es then es else es @ [Some h])"

definition set_delete :: "handler_id \<Rightarrow> set_data \<Rightarrow> set_data" where
  "set_delete h es = map (\<lambda>e. if e = Some h then None else e) es"

primrec members :: "set_data \<Rightarrow> handler_id list" where
  "members [] = []"
| "members (e # es) = (case e of None \<Rightarrow> members es | Some h \<Rightarrow> h # members es)"

text \<open>
  The field \<open>handlers: Map<AuthEventType, Set<AuthEventHandler>>\<close>. A \<open>Set\<close> is an object:
  one that \<open>off\<close> or \<open>clear\<close> has taken out of the map lives on for a \<open>forEach\<close> that is
  walking it, and a later \<open>on\<close> for the same event makes a new one. Every \<open>Set\<close> is made by
  \<open>on\<close> for one event and is never stored under another, so a \<open>Set\<close> is identified by its
  event and its serial number among the sets made for that event. \<open>handlers\<close> maps an
  event to the serial number of the set stored under it, \<open>sets\<close> holds the entries of every
  set, and \<open>created\<close> counts the sets made for each event.
\<close>

record emitter =
  handlers :: "AuthEventType \<rightharpoonup> nat"
  sets :: "AuthEventType \<times> nat \<Rightarrow> set_data"
  created :: "AuthEventType \<Rightarrow> nat"

definition AuthEventEmitter_new :: emitter where
  "AuthEventEmitter_new = \<lparr>handlers = Map.empty, sets = (\<lambda>s. []), created = (\<lambda>event. 0)\<rparr>"

text \<open>
  \<open>on\<close> returns the unsubscribe closure, which holds the event and the handler; calling
  the closure is \<open>unsubscribe\<close>. The closure looks the event up in the map when it is
  called.
\<close>

type_synonym unsubscribe_closure = "AuthEventType \<times> handler_id"

definition on :: "AuthEventType \<Rightarrow> handler_id \<Rightarrow> emitter \<Rightarrow> unsubscribe_closure \<times> emitter" where
  "on event handler em =
     (let em1 = (if handlers em event = None
                 then em\<lparr>handlers := (handlers em)(event \<mapsto> created em event),
                         sets := (sets em)((event, created em event) := []),
                         created := (created em)(event := Suc (created em event))\<rparr>
                 else em);
          em2 = (case handlers em1 event of
                   None \<Rightarrow> em1
                 | Some g \<Rightarrow>
                     em1\<lparr>sets := (sets em1)((event, g) := set_add handler (sets em1 (event, g)))\<rparr>)
      in ((event, handler), em2))"

definition unsubscribe :: "unsubscribe_closure \<Rightarrow> emitter \<Rightarrow> emitter" where
  "unsubscribe c em =
     (case handlers em (fst c) of
        None \<Rightarrow> em
      | Some g \<Rightarrow>
          em\<lparr>sets := (sets em)((fst c, g) := set_delete (snd c) (sets em (fst c, g)))\<rparr>)"

definition off :: "AuthEventType \<Rightarrow> emitter \<Rightarrow> emitter" where
  "off event em = em\<lparr>handlers := (handlers em)(event := None)\<rparr>"

definition clear_handlers :: "emitter \<Rightarrow> emitter" where
  "clear_handlers em = em\<lparr>handlers := Map.empty\<rparr>"

text \<open>The entries of the set stored under an event, and the handlers in it, in order.\<close>

definition entries :: "emitter \<Rightarrow> AuthEventType \<Rightarrow> set_data" where
  "entries em event = (case handlers em event of None \<Rightarrow> [] | Some g \<Rightarrow> sets em (event, g))"

definition registered :: "emitter \<Rightarrow> AuthEventType \<Rightarrow> handler_id list" where
  "registered em event = members (entries em event)"

text \<open>
  Handlers are supplied by the application. What a handler does when it is invoked is a
  sequence of steps: calls of the bus's own methods and of unsubscribe closures, and steps
  that change the rest of the application (\<open>Effect f\<close>, for instance a call of the storage
  adapter); the sequence may end by throwing. The environment \<open>bodies\<close> gives each handler
  its sequence.
\<close>

datatype 'a bus_call =
    CallOn AuthEventType handler_id
  | CallUnsubscribe AuthEventType handler_id
  | CallOff AuthEventType
  | CallClear
  | CallEmit AuthEventType
  | Throw js_error
  | Effect "'a \<Rightarrow> 'a"

datatype outcome = Returned | Threw js_error

text \<open>
  The state of a run is the emitter, the list of the handlers invoked so far, and the
  rest of the application.

  \<open>emit\<close> has no \<open>try\<close>: an exception thrown by a handler ends the \<open>forEach\<close> and leaves
  \<open>emit\<close>. A handler can keep a walk going for ever (by subscribing again what it
  unsubscribes, or by emitting the event it handles), so the three functions take fuel:
  every step of a walk uses one unit, and \<open>None\<close> says that the fuel did not suffice.
  (A browser ends a runaway recursion of \<open>emit\<close> with a \<open>RangeError\<close>; that bound is not
  part of the model, where such a run has no result for any fuel.)
  \<open>forEach_from fuel bodies s i\<close> is the walk over the set \<open>s\<close> from index \<open>i\<close> on.
\<close>

type_synonym 'a bus_state = "emitter \<times> handler_id list \<times> 'a"

fun run_handler ::
    "nat \<Rightarrow> (handler_id \<Rightarrow> 'a bus_call list) \<Rightarrow> 'a bus_call list \<Rightarrow> 'a bus_state
       \<Rightarrow> (outcome \<times> 'a bus_state) option"
  and emit ::
    "nat \<Rightarrow> (handler_id \<Rightarrow> 'a bus_call list) \<Rightarrow> AuthEventType \<Rightarrow> 'a bus_state
       \<Rightarrow> (outcome \<times> 'a bus_state) option"
  and forEach_from ::
    "nat \<Rightarrow> (handler_id \<Rightarrow> 'a bus_call list) \<Rightarrow> AuthEventType \<times> nat \<Rightarrow> nat \<Rightarrow> 'a bus_state
       \<Rightarrow> (outcome \<times> 'a bus_state) option"
where
  "run_handler fuel bodies [] w = Some (Returned, w)"
| "run_handler fuel bodies (CallOn event h # cs) (em, calls, app) =
     run_handler fuel bodies cs (snd (on event h em), calls, app)"
| "run_handler fuel bodies (CallUnsubscribe event h # cs) (em, calls, app) =
     run_handler fuel bodies cs (unsubscribe (event, h) em, calls, app)"
| "run_handler fuel bodies (CallOff event # cs) (em, calls, app) =
     run_handler fuel bodies cs (off event em, calls, app)"
| "run_handler fuel bodies (CallClear # cs) (em, calls, app) =
     run_handler fuel bodies cs (clear_handlers em, calls, app)"
| "run_handler fuel bodies (CallEmit event # cs) w =
     (case emit fuel bodies event w of
        None \<Rightarrow> None
      | Some (Threw e, w') \<Rightarrow> Some (Threw e, w')
      | Some (Returned, w') \<Rightarrow> run_handler fuel bodies cs w')"
| "run_handler fuel bodies (Throw e # cs) w = Some (Threw e, w)"
| "run_handler fuel bodies (Effect f # cs) (em, calls, app) =
     run_handler fuel bodies cs (em, calls, f app)"
| "emit fuel bodies event (em, calls, app) =
     (case handlers em event of
        None \<Rightarrow> Some (Returned, (em, calls, app))
      | Some g \<Rightarrow> forEach_from fuel bodies (event, g) 0 (em, calls, app))"
| "forEach_from 0 bodies s i w = None"
| "forEach_from (Suc fuel) bodies s i (em, calls, app) =
     (let es = sets em s in
      if i < length es then
        (case es ! i of
           None \<Rightarrow> forEach_from fuel bodies s (Suc i) (em, calls, app)
         | Some h \<Rightarrow>
             (case run_handler fuel bodies (bodies h) (em, calls @ [h], app) of
                None \<Rightarrow> None
              | Some (Threw e, w') \<Rightarrow> Some (Threw e, w')
              | Some (Returned, w') \<Rightarrow> forEach_from fuel bodies s (Suc i) w'))
      else Some (Returned, (em, calls, app)))"

text \<open>
  Handlers that return normally and do nothing on the bus but call unsubscribe closures;
  they may change the rest of the application.
\<close>

fun is_unsubscribe :: "'a bus_call \<Rightarrow> bool" where
  "is_unsubscribe (CallUnsubscribe event h) = True"
| "is_unsubscribe (Effect f) = True"
| "is_unsubscribe c = False"

definition only_unsubscribe ::
  "(handler_id \<Rightarrow> 'a bus_call list) \<Rightarrow> handler_id list \<Rightarrow> bool" where
  "only_unsubscribe bodies hs = list_all (\<lambda>h. list_all is_unsubscribe (bodies h)) hs"

text \<open>What the \<open>Effect\<close> steps of a sequence do to the rest of the application.\<close>

fun run_effects :: "'a bus_call list \<Rightarrow> 'a \<Rightarrow> 'a" where
  "run_effects [] app = app"
| "run_effects (Effect f # cs) app = run_effects cs (f app)"
| "run_effects (c # cs) app = run_effects cs app"

text \<open>
  A delivery pass over the entries \<open>es\<close> is undisturbed when no handler calls an unsubscribe
  closure for this event whose handler sits in a later entry. A handler may unsubscribe
  itself, a handler that was already invoked, or a handler of another event.
\<close>

fun spares :: "AuthEventType \<Rightarrow> set_data \<Rightarrow> 'a bus_call \<Rightarrow> bool" where
  "spares event es (CallUnsubscribe event' k) = (event' \<noteq> event \<or> Some k \<notin> set es)"
| "spares event es c = True"

primrec undisturbed ::
  "(handler_id \<Rightarrow> 'a bus_call list) \<Rightarrow> AuthEventType \<Rightarrow> set_data \<Rightarrow> bool" where
  "undisturbed bodies event [] = True"
| "undisturbed bodies event (e # es) =
     ((case e of
         None \<Rightarrow> True
       | Some h \<Rightarrow> list_all (spares event es) (bodies h))
      \<and> undisturbed bodies event es)"

definition undisturbed_pass ::
  "(handler_id \<Rightarrow> 'a bus_call list) \<Rightarrow> AuthEventType \<Rightarrow> emitter \<Rightarrow> bool" where
  "undisturbed_pass bodies event em = undisturbed bodies event (entries em event)"

section \<open>Transport Guard (the response interceptor of \<open>api\<close>)\<close>

text \<open>
  The interceptor sees the error object of a failed request. \<open>error.response?.status\<close> is
  \<open>None\<close> when the error has no response (a network failure). The promise the interceptor
  returns is rejected with the error it was given, unless a statement before
  \<open>return Promise.reject(error)\<close> throws, in which case it is rejected with what was thrown.
  The result is \<open>None\<close> when the delivery of the event does not finish within the fuel.
\<close>

record AxiosError =
  response_status :: "int option"
  message :: string

datatype rejection = Original AxiosError | Thrown js_error

record client =
  storage :: storage_world
  authEvents :: emitter
  invoked :: "handler_id list"

text \<open>
  The rest of the application that the subscribed handlers may change is the storage
  adapter's world. The handlers run in the world that \<open>storage.removeItem\<close> has left.
\<close>

definition response_error_interceptor ::
  "nat \<Rightarrow> (handler_id \<Rightarrow> storage_world bus_call list) \<Rightarrow> js_error option \<Rightarrow> AxiosError
     \<Rightarrow> client \<Rightarrow> ((rejection, unit) promise \<times> client) option" where
  "response_error_interceptor fuel bodies fault error c =
     (if response_status error = Some 401 then
        (case removeItem fault ''auth_token'' (storage c) of
           Inl e \<Rightarrow> Some (Rejected (Thrown e), c)
         | Inr (u, sw) \<Rightarrow>
             (case emit fuel bodies Unauthorized (authEvents c, invoked c, sw) of
                None \<Rightarrow> None
              | Some (Threw e, (em, calls, sw')) \<Rightarrow>
                  Some (Rejected (Thrown e),
                        c\<lparr>storage := sw', authEvents := em, invoked := calls\<rparr>)
              | Some (Returned, (em, calls, sw')) \<Rightarrow>
                  Some (Rejected (Original error),
                        c\<lparr>storage := sw', authEvents := em, invoked := calls\<rparr>)))
      else Some (Rejected (Original error), c))"

section \<open>Optimistic Mutation Coordinator (\<open>handleUpvoteFeedback\<close> of \<open>AppContent\<close>)\<close>

record Feedback =
  fid :: int
  ftext :: string
  upvotes :: int
  user_id :: int
  user_email :: string
  created_at :: string
  updated_at :: "string option"
  has_upvoted :: bool

record UpvoteResponse =
  r_id :: int
  r_upvotes :: int
  r_has_upvoted :: bool
  r_message :: string

text \<open>
  The component state the handler writes: \<open>feedbacks\<close> (the entity cache) and \<open>error\<close>.
  An updater passed to \<open>setFeedbacks\<close> is applied to the state that is current when it
  runs.
\<close>

record AppState =
  feedbacks :: "Feedback list"
  error :: string

text \<open>
  \<open>handleUpvoteFeedback\<close> is an async function with one \<open>await\<close>. It runs from its start
  to the \<open>await\<close> (or to its early \<open>return\<close>) in one turn, is suspended holding its locals
  \<open>id\<close> and \<open>targetFeedback\<close>, and runs from the \<open>await\<close> to its end when the request
  settles. Anything may happen between the two turns. \<open>Settled p\<close> says that the promise
  returned by the function has settled as \<open>p\<close>.
\<close>

datatype upvote_task =
    Settled "(js_error, unit) promise"
  | AwaitingUpvote int Feedback

text \<open>
  First turn. \<open>rendered\<close> is the value of \<open>feedbacks\<close> the closure captured at the render
  that created it.
\<close>

definition handleUpvoteFeedback_start ::
  "Feedback list \<Rightarrow> int \<Rightarrow> AppState \<Rightarrow> upvote_task \<times> AppState" where
  "handleUpvoteFeedback_start rendered i st =
     (case find (\<lambda>f. fid f = i) rendered of
        None \<Rightarrow> (Settled (Resolved ()), st)
      | Some targetFeedback \<Rightarrow>
          (let wasUpvoted = has_upvoted targetFeedback;
               optimisticUpvotes =
                 (if wasUpvoted then upvotes targetFeedback - 1 else upvotes targetFeedback + 1);
               st1 = st\<lparr>feedbacks :=
                        map (\<lambda>feedback.
                               if fid feedback = i
                               then feedback\<lparr>upvotes := optimisticUpvotes,
                                             has_upvoted := \<not> wasUpvoted\<rparr>
                               else feedback)
                            (feedbacks st)\<rparr>;
               st2 = st1\<lparr>error := []\<rparr>
           in (AwaitingUpvote i targetFeedback, st2)))"

text \<open>Second turn: the request has settled with \<open>reply\<close>.\<close>

definition handleUpvoteFeedback_resume ::
  "int \<Rightarrow> Feedback \<Rightarrow> (js_error, UpvoteResponse) promise \<Rightarrow> AppState
     \<Rightarrow> (js_error, unit) promise \<times> AppState" where
  "handleUpvoteFeedback_resume i targetFeedback reply st =
     (case reply of
        Resolved response \<Rightarrow>
          (Resolved (),
           st\<lparr>feedbacks :=
                map (\<lambda>feedback.
                       if fid feedback = i
                       then feedback\<lparr>upvotes := r_upvotes response,
                                     has_upvoted := r_has_upvoted response\<rparr>
                       else feedback)
                    (feedbacks st)\<rparr>)
      | Rejected err \<Rightarrow>
          (let st1 = st\<lparr>feedbacks :=
                        map (\<lambda>feedback.
                               if fid feedback = i
                               then feedback\<lparr>upvotes := upvotes targetFeedback,
                                             has_upvoted := has_upvoted targetFeedback\<rparr>
                               else feedback)
                            (feedbacks st)\<rparr>
           in (Resolved (), st1\<lparr>error := ''Failed to upvote feedback. Please try again.''\<rparr>)))"

text \<open>The cached \<open>{upvotes, has_upvoted}\<close> of the entity with a given id.\<close>

definition entity_state :: "Feedback list \<Rightarrow> int \<Rightarrow> (int \<times> bool) option" where
  "entity_state fs i = map_option (\<lambda>f. (upvotes f, has_upvoted f)) (find (\<lambda>f. fid f = i) fs)"

text \<open>
  The race: two toggles of the same entity whose requests both succeed; the reply \<open>r2\<close> to
  the second arrives first, the reply \<open>r1\<close> to the first arrives last. The first toggle
  runs on an up-to-date render. \<open>rerendered\<close> says whether the component was rendered
  again between the two clicks, so that the second toggle sees the optimistic write of the
  first; otherwise it sees the list the first one saw. The result is \<open>None\<close> when a toggle
  returned early.
\<close>

definition two_toggles_replies_reversed ::
  "bool \<Rightarrow> int \<Rightarrow> UpvoteResponse \<Rightarrow> UpvoteResponse \<Rightarrow> AppState \<Rightarrow> AppState option" where
  "two_toggles_replies_reversed rerendered i r1 r2 st0 =
     (case handleUpvoteFeedback_start (feedbacks st0) i st0 of
        (Settled p, st1) \<Rightarrow> None
      | (AwaitingUpvote i1 t1, st1) \<Rightarrow>
          (case handleUpvoteFeedback_start
                  (if rerendered then feedbacks st1 else feedbacks st0) i st1 of
             (Settled p, st2) \<Rightarrow> None
           | (AwaitingUpvote i2 t2, st2) \<Rightarrow>
               (let st3 = snd (handleUpvoteFeedback_resume i2 t2 (Resolved r2) st2);
                    st4 = snd (handleUpvoteFeedback_resume i1 t1 (Resolved r1) st3)
                in Some st4)))"

section \<open>Session Monitor (\<open>TokenManager\<close>)\<close>

subsection \<open>Values and platform functions\<close>

text \<open>
  A JavaScript number is a real number or \<open>NaN\<close> (rounding and the infinities of doubles
  are left out). The result of \<open>JSON.parse\<close> is a JSON value; the object of a parsed text
  has each key once.

  \<open>atob\<close>, \<open>JSON.parse\<close> and the conversion of strings and arrays to numbers belong to
  the platform and are parameters of the model. \<open>atob\<close> and \<open>JSON.parse\<close> may throw.
\<close>

datatype jsnum = NaN | Num real

datatype json =
    JNull
  | JBool bool
  | JNumber real
  | JString string
  | JArray "json list"
  | JObject "(string \<times> json) list"

record platform =
  atob :: "string \<Rightarrow> js_error + string"
  JSON_parse :: "string \<Rightarrow> js_error + json"
  StringToNumber :: "string \<Rightarrow> jsnum"
  ArrayToNumber :: "json list \<Rightarrow> jsnum"

text \<open>\<open>!v\<close> is \<open>\<not> truthy v\<close>.\<close>

fun truthy :: "json \<Rightarrow> bool" where
  "truthy JNull = False"
| "truthy (JBool b) = b"
| "truthy (JNumber n) = (n \<noteq> 0)"
| "truthy (JString s) = (s \<noteq> [])"
| "truthy (JArray xs) = True"
| "truthy (JObject kvs) = True"

fun truthy_num :: "jsnum \<Rightarrow> bool" where
  "truthy_num NaN = False"
| "truthy_num (Num n) = (n \<noteq> 0)"

text \<open>\<open>payload.exp\<close>, with \<open>None\<close> for \<open>undefined\<close>; only an object has own properties.\<close>

fun get_exp :: "json \<Rightarrow> json option" where
  "get_exp (JObject kvs) = map_of kvs ''exp''"
| "get_exp v = None"

fun ToNumber :: "platform \<Rightarrow> json \<Rightarrow> jsnum" where
  "ToNumber P JNull = Num 0"
| "ToNumber P (JBool b) = Num (if b then 1 else 0)"
| "ToNumber P (JNumber n) = Num n"
| "ToNumber P (JString s) = StringToNumber P s"
| "ToNumber P (JArray xs) = ArrayToNumber P xs"
| "ToNumber P (JObject kvs) = NaN"

fun times_num :: "jsnum \<Rightarrow> real \<Rightarrow> jsnum" where
  "times_num NaN k = NaN"
| "times_num (Num n) k = Num (n * k)"

text \<open>\<open>token.split('.')\<close>: the empty string gives one empty part.\<close>

fun split_dot :: "string \<Rightarrow> string list" where
  "split_dot [] = [[]]"
| "split_dot (c # cs) =
     (if c = CHR ''.'' then [] # split_dot cs
      else (case split_dot cs of
              [] \<Rightarrow> [[c]]
            | p # ps \<Rightarrow> (c # p) # ps))"

text \<open>\<open>payload.replace(/-/g, '+').replace(/_/g, '/')\<close>\<close>

definition base64url_to_base64 :: "string \<Rightarrow> string" where
  "base64url_to_base64 s =
     map (\<lambda>c. if c = CHR ''_'' then CHR ''/'' else c)
       (map (\<lambda>c. if c = CHR ''-'' then CHR ''+'' else c) s)"

subsection \<open>Decoding\<close>

text \<open>The \<open>try\<close> block of \<open>decodeToken\<close>; \<open>Inl\<close> is an exception on its way to \<open>catch\<close>.\<close>

definition decodeToken_try :: "platform \<Rightarrow> string \<Rightarrow> js_error + json" where
  "decodeToken_try P token =
     (let parts = split_dot token in
      if length parts \<noteq> 3 then Inr JNull
      else
        (let payload = parts ! 1 in
         case atob P (base64url_to_base64 payload) of
           Inl e \<Rightarrow> Inl e
         | Inr decoded \<Rightarrow> JSON_parse P decoded))"

text \<open>\<open>decodeToken\<close>: \<open>null\<close> is \<open>JNull\<close>.\<close>

definition decodeToken :: "platform \<Rightarrow> string \<Rightarrow> json" where
  "decodeToken P token =
     (case decodeToken_try P token of
        Inl e \<Rightarrow> JNull
      | Inr v \<Rightarrow> v)"

definition getTokenExpiry :: "platform \<Rightarrow> string \<Rightarrow> jsnum option" where
  "getTokenExpiry P token =
     (let payload = decodeToken P token in
      if \<not> truthy payload then None
      else
        (case get_exp payload of
           None \<Rightarrow> None
         | Some exp_claim \<Rightarrow>
             if \<not> truthy exp_claim then None
             else Some (times_num (ToNumber P exp_claim) 1000)))"

text \<open>\<open>now\<close> is the value of \<open>Date.now()\<close>.\<close>

definition getTimeUntilExpiry :: "platform \<Rightarrow> real \<Rightarrow> string \<Rightarrow> real option" where
  "getTimeUntilExpiry P now token =
     (case getTokenExpiry P token of
        None \<Rightarrow> None
      | Some expiry \<Rightarrow>
          if \<not> truthy_num expiry then None
          else (case expiry of
                  NaN \<Rightarrow> None
                | Num e \<Rightarrow> Some (e - now)))"

definition isTokenExpired :: "platform \<Rightarrow> real \<Rightarrow> string \<Rightarrow> bool" where
  "isTokenExpired P now token =
     (case getTimeUntilExpiry P now token of
        None \<Rightarrow> True
      | Some timeUntilExpiry \<Rightarrow> timeUntilExpiry \<le> 0)"

subsection \<open>Timers and observable effects\<close>

text \<open>
  Time is virtual, in milliseconds, and stands still during one turn of the event loop.
  \<open>setTimeout\<close> files a timer that is due \<open>delay\<close> after the current time (at once for a
  delay that is not positive) and returns its id; ids start at 1, so an id is truthy.
  \<open>clearTimeout\<close> removes the timer with the given id, if it is still pending.

  The action of a timer is the callback it was created with. The callback
  \<open>updateCountdown\<close> closes over the variable \<open>countdown\<close> of one call of
  \<open>showLogoutCountdown\<close>; nothing else reads or writes that variable, so the action carries
  its current value.
\<close>

datatype timer_action =
    ShowExpiryWarning
  | AttemptTokenRefresh
  | HandleTokenExpiry
  | UpdateCountdown real
  | RemoveNotification

record timer =
  timer_id :: nat
  due :: real
  action :: timer_action

text \<open>What the user and the owner of the manager can observe, each with its time.\<close>

datatype effect =
    WarningShown real
  | RefreshCallbackInvoked
  | RefreshSuccessShown
  | RefreshFailedShown
  | CountdownShown real
  | ExpiryCallbackInvoked
  | ModalRemoved
  | NotificationRemoved

record TokenExpiryConfig =
  warningMinutes :: real
  refreshMinutes :: real
  logoutCountdownSeconds :: real

text \<open>
  The fields of \<open>TokenManager\<close>. The two callbacks are supplied by the owner: of
  \<open>onTokenExpiry\<close> the model keeps whether it is set, of \<open>onTokenRefresh\<close> how the promise it
  returns settles (\<open>None\<close> when no callback is set).
\<close>

record TokenManager =
  warningTimer :: "nat option"
  refreshTimer :: "nat option"
  logoutTimer :: "nat option"
  config :: TokenExpiryConfig
  onTokenExpiry :: bool
  onTokenRefresh :: "(js_error, bool) promise option"

record browser =
  clock :: real
  timers :: "timer list"
  next_timer_id :: nat
  trace :: "(real \<times> effect) list"
  manager :: TokenManager

definition setTimeout :: "timer_action \<Rightarrow> real \<Rightarrow> browser \<Rightarrow> nat \<times> browser" where
  "setTimeout a delay b =
     (next_timer_id b,
      b\<lparr>timers := timers b @
            [\<lparr>timer_id = next_timer_id b, due = clock b + max delay 0, action = a\<rparr>],
        next_timer_id := Suc (next_timer_id b)\<rparr>)"

definition clearTimeout :: "nat \<Rightarrow> browser \<Rightarrow> browser" where
  "clearTimeout i b = b\<lparr>timers := filter (\<lambda>t. timer_id t \<noteq> i) (timers b)\<rparr>"

definition observe :: "effect \<Rightarrow> browser \<Rightarrow> browser" where
  "observe e b = b\<lparr>trace := trace b @ [(clock b, e)]\<rparr>"

subsection \<open>The class\<close>

record PartialConfig =
  p_warningMinutes :: "real option"
  p_refreshMinutes :: "real option"
  p_logoutCountdownSeconds :: "real option"

definition TokenManager_new :: "PartialConfig \<Rightarrow> TokenManager" where
  "TokenManager_new c =
     \<lparr>warningTimer = None, refreshTimer = None, logoutTimer = None,
      config = \<lparr>warningMinutes = (case p_warningMinutes c of None \<Rightarrow> 5 | Some v \<Rightarrow> v),
                refreshMinutes = (case p_refreshMinutes c of None \<Rightarrow> 2 | Some v \<Rightarrow> v),
                logoutCountdownSeconds =
                  (case p_logoutCountdownSeconds c of None \<Rightarrow> 30 | Some v \<Rightarrow> v)\<rparr>,
      onTokenExpiry = False, onTokenRefresh = None\<rparr>"

definition setOnTokenExpiry :: "TokenManager \<Rightarrow> TokenManager" where
  "setOnTokenExpiry m = m\<lparr>onTokenExpiry := True\<rparr>"

definition setOnTokenRefresh :: "(js_error, bool) promise \<Rightarrow> TokenManager \<Rightarrow> TokenManager" where
  "setOnTokenRefresh callback m = m\<lparr>onTokenRefresh := Some callback\<rparr>"

definition stopMonitoring :: "browser \<Rightarrow> browser" where
  "stopMonitoring b =
     (let b1 = (case warningTimer (manager b) of
                  None \<Rightarrow> b
                | Some i \<Rightarrow> (clearTimeout i b)\<lparr>manager := (manager b)\<lparr>warningTimer := None\<rparr>\<rparr>);
          b2 = (case refreshTimer (manager b1) of
                  None \<Rightarrow> b1
                | Some i \<Rightarrow> (clearTimeout i b1)\<lparr>manager := (manager b1)\<lparr>refreshTimer := None\<rparr>\<rparr>);
          b3 = (case logoutTimer (manager b2) of
                  None \<Rightarrow> b2
                | Some i \<Rightarrow> (clearTimeout i b2)\<lparr>manager := (manager b2)\<lparr>logoutTimer := None\<rparr>\<rparr>)
      in b3)"

definition startMonitoring :: "platform \<Rightarrow> string \<Rightarrow> browser \<Rightarrow> browser" where
  "startMonitoring P token b0 =
     (let b = stopMonitoring b0 in
      if token = [] \<or> isTokenExpired P (clock b) token then b
      else
        (case getTimeUntilExpiry P (clock b) token of
           None \<Rightarrow> b
         | Some timeUntilExpiry \<Rightarrow>
             if timeUntilExpiry = 0 then b
             else
               (let warningTime = warningMinutes (config (manager b)) * 60 * 1000;
                    refreshTime = refreshMinutes (config (manager b)) * 60 * 1000;
                    b1 = (if timeUntilExpiry > warningTime then
                            (let (i, b') = setTimeout ShowExpiryWarning
                                             (timeUntilExpiry - warningTime) b
                             in b'\<lparr>manager := (manager b')\<lparr>warningTimer := Some i\<rparr>\<rparr>)
                          else b);
                    b2 = (if timeUntilExpiry > refreshTime then
                            (let (i, b') = setTimeout AttemptTokenRefresh
                                             (timeUntilExpiry - refreshTime) b1
                             in b'\<lparr>manager := (manager b')\<lparr>refreshTimer := Some i\<rparr>\<rparr>)
                          else b1);
                    (i, b3) = setTimeout HandleTokenExpiry timeUntilExpiry b2
                in b3\<lparr>manager := (manager b3)\<lparr>logoutTimer := Some i\<rparr>\<rparr>)))"

definition showExpiryWarning :: "browser \<Rightarrow> browser" where
  "showExpiryWarning b =
     (let minutes = warningMinutes (config (manager b));
          b1 = observe (WarningShown minutes) b
      in snd (setTimeout RemoveNotification 10000 b1))"

definition showRefreshSuccess :: "browser \<Rightarrow> browser" where
  "showRefreshSuccess b = snd (setTimeout RemoveNotification 3000 (observe RefreshSuccessShown b))"

definition showRefreshFailed :: "browser \<Rightarrow> browser" where
  "showRefreshFailed b = snd (setTimeout RemoveNotification 5000 (observe RefreshFailedShown b))"

text \<open>
  \<open>attemptTokenRefresh\<close> awaits the promise of the callback; the promise is taken to settle
  within the same instant of virtual time.
\<close>

definition attemptTokenRefresh :: "browser \<Rightarrow> browser" where
  "attemptTokenRefresh b =
     (case onTokenRefresh (manager b) of
        None \<Rightarrow> b
      | Some outcome \<Rightarrow>
          (let b1 = observe RefreshCallbackInvoked b in
           case outcome of
             Resolved success \<Rightarrow> if success then showRefreshSuccess b1 else showRefreshFailed b1
           | Rejected e \<Rightarrow> showRefreshFailed b1))"

definition updateCountdown :: "real \<Rightarrow> browser \<Rightarrow> browser" where
  "updateCountdown countdown b =
     (let b1 = observe (CountdownShown countdown) b;
          countdown' = countdown - 1
      in if countdown' < 0 then
           (let b2 = (if onTokenExpiry (manager b1) then observe ExpiryCallbackInvoked b1 else b1)
            in observe ModalRemoved b2)
         else snd (setTimeout (UpdateCountdown countdown') 1000 b1))"

definition showLogoutCountdown :: "browser \<Rightarrow> browser" where
  "showLogoutCountdown b = updateCountdown (logoutCountdownSeconds (config (manager b))) b"

definition handleTokenExpiry :: "browser \<Rightarrow> browser" where
  "handleTokenExpiry b = (if \<not> onTokenExpiry (manager b) then b else showLogoutCountdown b)"

subsection \<open>The event loop\<close>

fun run_action :: "timer_action \<Rightarrow> browser \<Rightarrow> browser" where
  "run_action ShowExpiryWarning b = showExpiryWarning b"
| "run_action AttemptTokenRefresh b = attemptTokenRefresh b"
| "run_action HandleTokenExpiry b = handleTokenExpiry b"
| "run_action (UpdateCountdown c) b = updateCountdown c b"
| "run_action RemoveNotification b = observe NotificationRemoved b"

text \<open>The pending timer that fires next: the earliest due, the oldest among equals.\<close>

fun next_timer :: "timer list \<Rightarrow> timer option" where
  "next_timer [] = None"
| "next_timer (t # ts) =
     (case next_timer ts of
        None \<Rightarrow> Some t
      | Some u \<Rightarrow> if due u < due t then Some u else Some t)"

text \<open>
  \<open>advance fuel t\<close> lets virtual time run up to \<open>t\<close>, firing every timer that falls due on
  the way, each at its due time. Timers create timers, so the loop is bounded by \<open>fuel\<close>;
  \<open>None\<close> means the fuel ran out.
\<close>

fun advance :: "nat \<Rightarrow> real \<Rightarrow> browser \<Rightarrow> browser option" where
  "advance fuel t b =
     (case next_timer (filter (\<lambda>x. due x \<le> t) (timers b)) of
        None \<Rightarrow> Some (b\<lparr>clock := max (clock b) t\<rparr>)
      | Some x \<Rightarrow>
          (case fuel of
             0 \<Rightarrow> None
           | Suc n \<Rightarrow>
               advance n t
                 (run_action (action x)
                    (b\<lparr>clock := max (clock b) (due x),
                       timers := filter (\<lambda>y. timer_id y \<noteq> timer_id x) (timers b)\<rparr>))))"

declare advance.simps [simp del]

subsection \<open>The singleton and its owner\<close>

text \<open>
  The module exports one manager with the default configuration. The constructor of
  \<open>AuthService\<close> (\<open>setupTokenExpiryHandling\<close>) sets both callbacks: the expiry callback
  logs the user out, and the refresh callback is \<open>async () => false\<close>.
\<close>

definition tokenManager :: TokenManager where
  "tokenManager =
     TokenManager_new
       \<lparr>p_warningMinutes = None, p_refreshMinutes = None, p_logoutCountdownSeconds = None\<rparr>"

definition setupTokenExpiryHandling :: "TokenManager \<Rightarrow> TokenManager" where
  "setupTokenExpiryHandling m = setOnTokenRefresh (Resolved False) (setOnTokenExpiry m)"

text \<open>The page at time \<open>now\<close> with no timer pending and nothing observed yet.\<close>

definition page_at :: "real \<Rightarrow> TokenManager \<Rightarrow> browser" where
  "page_at now m = \<lparr>clock = now, timers = [], next_timer_id = 1, trace = [], manager = m\<rparr>"

text \<open>
  A platform on which \<open>atob\<close> returns its argument and \<open>JSON.parse\<close> yields the value \<open>v\<close>
  for every text, and on which strings and arrays convert to \<open>NaN\<close>. On it, every
  credential of three segments carries the claim set \<open>v\<close>.
\<close>

definition claims_platform :: "json \<Rightarrow> platform" where
  "claims_platform v =
     \<lparr>atob = (\<lambda>s. Inr s), JSON_parse = (\<lambda>s. Inr v),
      StringToNumber = (\<lambda>s. NaN), ArrayToNumber = (\<lambda>xs. NaN)\<rparr>"

section \<open>Properties of the Storage Adapter\<close>

lemma memory_get_empty_string:
  "memoryStorage s key = Some [] \<Longrightarrow> memory_get s key = None"
  by (simp add: memory_get_def)

text \<open>
  Claim C10. The adapter works on the in-memory map when it is on its fallback, and also
  for a call whose backing-store operation fails. In both cases, storing the empty string
  under a key and reading the key back gives the absent result, not the empty string: the
  answer a key that was never stored gives.
\<close>

theorem fallback_empty_string_reads_absent:
  assumes "\<not> isUsingLocalStorage (s, ls) \<or> (f1 \<noteq> None \<and> f2 \<noteq> None)"
  shows "\<exists>w'. set_then_get f1 f2 key [] (s, ls) = Inr (None, w')"
  using assms
  by (cases "isAvailable s")
     (auto simp: set_then_get_def setItem_def getItem_def isUsingLocalStorage_def
        memory_get_def localStorage_setItem_def localStorage_getItem_def)

theorem fallback_empty_string_reads_absent_witness:
  "\<not> isUsingLocalStorage (\<lparr>isAvailable = False, memoryStorage = Map.empty\<rparr>, Map.empty)
   \<and> (\<exists>w'. set_then_get None None ''auth_token'' []
         (\<lparr>isAvailable = False, memoryStorage = Map.empty\<rparr>, Map.empty) = Inr (None, w'))"
  using fallback_empty_string_reads_absent
    [of "\<lparr>isAvailable = False, memoryStorage = Map.empty\<rparr>" Map.empty None None "''auth_token''"]
  by (simp add: isUsingLocalStorage_def)

subsection \<open>No call raises, and the availability flag is fixed at construction\<close>









section \<open>Properties of the Event Bus\<close>

lemmas bus_defs =
  on_def unsubscribe_def off_def clear_handlers_def AuthEventEmitter_new_def
  set_add_def set_delete_def registered_def entries_def Let_def

lemma run_handler_unsubscribes:
  assumes "list_all is_unsubscribe cs"
  shows "\<exists>em'. run_handler fuel bodies cs (em, calls, app)
                 = Some (Returned, (em', calls, run_effects cs app))
           \<and> handlers em' = handlers em
           \<and> entries em' ev
               = map (\<lambda>e. if \<exists>k. e = Some k \<and> CallUnsubscribe ev k \<in> set cs then None else e)
                   (entries em ev)"
  using assms
proof (induction cs arbitrary: em app)
  case Nil
  then show ?case by (simp add: map_idI)
next
  case (Cons c cs)
  from Cons.prems have rest: "list_all is_unsubscribe cs" by simp
  from Cons.prems consider
    (unsub) ev' k where "c = CallUnsubscribe ev' k" | (effect) f where "c = Effect f"
    by (cases c) auto
  then show ?case
  proof cases
    case unsub
    let ?em1 = "unsubscribe (ev', k) em"
    have h1: "handlers ?em1 = handlers em"
      by (simp add: unsubscribe_def split: option.splits)
    have e1: "entries ?em1 ev = (if ev' = ev then set_delete k (entries em ev) else entries em ev)"
      by (auto simp: unsubscribe_def entries_def set_delete_def split: option.splits)
    from Cons.IH [OF rest, of ?em1 app] obtain em' where
      r: "run_handler fuel bodies cs (?em1, calls, app)
            = Some (Returned, (em', calls, run_effects cs app))"
      and h: "handlers em' = handlers ?em1"
      and e: "entries em' ev
               = map (\<lambda>e. if \<exists>k. e = Some k \<and> CallUnsubscribe ev k \<in> set cs then None else e)
                   (entries ?em1 ev)"
      by blast
    have "entries em' ev
            = map (\<lambda>e. if \<exists>k. e = Some k \<and> CallUnsubscribe ev k \<in> set (c # cs) then None else e)
                (entries em ev)"
      unfolding e e1 unsub by (auto simp: set_delete_def)
    with r h h1 unsub show ?thesis by simp
  next
    case effect
    from Cons.IH [OF rest, of em "f app"] obtain em' where
      r: "run_handler fuel bodies cs (em, calls, f app)
            = Some (Returned, (em', calls, run_effects cs (f app)))"
      and h: "handlers em' = handlers em"
      and e: "entries em' ev
               = map (\<lambda>e. if \<exists>k. e = Some k \<and> CallUnsubscribe ev k \<in> set cs then None else e)
                   (entries em ev)"
      by blast
    have "entries em' ev
            = map (\<lambda>e. if \<exists>k. e = Some k \<and> CallUnsubscribe ev k \<in> set (c # cs) then None else e)
                (entries em ev)"
      unfolding e effect by simp
    with r h effect show ?thesis by simp
  qed
qed

lemma members_strike_subseq:
  "subseq (members (map (\<lambda>e. if P e then None else e) es)) (members es)"
  by (induction es) (auto split: option.splits)

lemma members_strike_gone:
  "P k \<Longrightarrow> k \<notin> set (members (map (\<lambda>e. if \<exists>j. e = Some j \<and> P j then None else e) es))"
  by (induction es) (auto split: option.splits)

lemma members_drop:
  "i < length es \<Longrightarrow>
     members (drop i es)
       = (case es ! i of None \<Rightarrow> members (drop (Suc i) es) | Some h \<Rightarrow> h # members (drop (Suc i) es))"
  by (simp flip: Cons_nth_drop_Suc)

lemma subseq_set_subset: "subseq xs ys \<Longrightarrow> set xs \<subseteq> set ys"
  by (induction rule: list_emb.induct) auto


lemma only_unsubscribe_subset:
  "only_unsubscribe bodies ys \<Longrightarrow> set xs \<subseteq> set ys \<Longrightarrow> only_unsubscribe bodies xs"
  by (auto simp: only_unsubscribe_def list_all_iff)

lemma strike_later_id:
  fixes b :: "'a bus_call list"
  assumes "list_all (spares ev rest) b"
  shows "map (\<lambda>e. if \<exists>k. e = Some k \<and> CallUnsubscribe ev k \<in> set b then None else e) rest = rest"
proof (rule map_idI)
  fix e assume e: "e \<in> set rest"
  have "\<not> (\<exists>k. e = Some k \<and> CallUnsubscribe ev k \<in> set b)"
  proof
    assume "\<exists>k. e = Some k \<and> CallUnsubscribe ev k \<in> set b"
    then obtain k where k: "e = Some k" "CallUnsubscribe ev k \<in> set b" by blast
    from assms k(2) have "spares ev rest (CallUnsubscribe ev k :: 'a bus_call)"
      unfolding list_all_iff by blast
    with e k(1) show False by simp
  qed
  then show "(if \<exists>k. e = Some k \<and> CallUnsubscribe ev k \<in> set b then None else e) = e"
    by (rule if_not_P)
qed

lemma forEach_from_unsubscribers:
  assumes "handlers em ev = Some g"
    and "only_unsubscribe bodies (members (drop i (entries em ev)))"
    and "length (entries em ev) - i < fuel"
  shows "\<exists>em' xs. forEach_from fuel bodies (ev, g) i (em, calls, app)
                    = Some (Returned, (em', calls @ xs, fold (\<lambda>h. run_effects (bodies h)) xs app))
           \<and> subseq xs (members (drop i (entries em ev)))
           \<and> (\<forall>pre h post k. xs = pre @ h # post \<longrightarrow> CallUnsubscribe ev k \<in> set (bodies h)
                  \<longrightarrow> k \<notin> set post)
           \<and> (undisturbed bodies ev (drop i (entries em ev))
                  \<longrightarrow> xs = members (drop i (entries em ev)))"
  using assms
proof (induction fuel arbitrary: i em calls app)
  case 0
  then show ?case by simp
next
  case (Suc fuel)
  let ?es = "entries em ev"
  let ?fx = "\<lambda>h. run_effects (bodies h)"
  have es: "sets em (ev, g) = ?es" using Suc.prems(1) by (simp add: entries_def)
  show ?case
  proof (cases "i < length ?es")
    case False
    then show ?thesis using es by simp
  next
    case True
    then have split: "drop i ?es = ?es ! i # drop (Suc i) ?es"
      by (simp add: Cons_nth_drop_Suc)
    have fuel: "length ?es - Suc i < fuel" using Suc.prems(3) True by simp
    show ?thesis
    proof (cases "?es ! i")
      case None
      have only: "only_unsubscribe bodies (members (drop (Suc i) ?es))"
        using Suc.prems(2) True None by (simp add: members_drop)
      from Suc.IH [OF Suc.prems(1) only fuel, of calls app] obtain em' xs where
        r: "forEach_from fuel bodies (ev, g) (Suc i) (em, calls, app)
              = Some (Returned, (em', calls @ xs, fold ?fx xs app))"
        and s: "subseq xs (members (drop (Suc i) ?es))"
        and k: "\<forall>pre h post k. xs = pre @ h # post \<longrightarrow> CallUnsubscribe ev k \<in> set (bodies h)
                  \<longrightarrow> k \<notin> set post"
        and u: "undisturbed bodies ev (drop (Suc i) ?es) \<longrightarrow> xs = members (drop (Suc i) ?es)"
        by blast
      have "forEach_from (Suc fuel) bodies (ev, g) i (em, calls, app)
              = Some (Returned, (em', calls @ xs, fold ?fx xs app))"
        using r es True None by simp
      moreover have "subseq xs (members (drop i ?es))"
        using s True None by (simp add: members_drop)
      moreover have "undisturbed bodies ev (drop i ?es) \<longrightarrow> xs = members (drop i ?es)"
        using u split None True by (simp add: members_drop)
      ultimately show ?thesis using k by blast
    next
      case (Some h)
      have hin: "h \<in> set (members (drop i ?es))"
        using True Some by (simp add: members_drop)
      then have body: "list_all is_unsubscribe (bodies h)"
        using Suc.prems(2) by (auto simp: only_unsubscribe_def list_all_iff)
      let ?strike = "\<lambda>e. if \<exists>k. e = Some k \<and> CallUnsubscribe ev k \<in> set (bodies h) then None else e"
      let ?app1 = "run_effects (bodies h) app"
      from run_handler_unsubscribes [OF body, of fuel bodies em "calls @ [h]" app ev]
      obtain em1 where
        r1: "run_handler fuel bodies (bodies h) (em, calls @ [h], app)
               = Some (Returned, (em1, calls @ [h], ?app1))"
        and h1: "handlers em1 = handlers em"
        and e1: "entries em1 ev = map ?strike ?es"
        by blast
      have g1: "handlers em1 ev = Some g" using h1 Suc.prems(1) by simp
      have sub1: "subseq (members (drop (Suc i) (entries em1 ev))) (members (drop (Suc i) ?es))"
        unfolding e1 drop_map by (rule members_strike_subseq)
      have "set (members (drop (Suc i) (entries em1 ev))) \<subseteq> set (members (drop i ?es))"
        using subseq_set_subset [OF sub1] True Some by (auto simp: members_drop)
      then have only1: "only_unsubscribe bodies (members (drop (Suc i) (entries em1 ev)))"
        using Suc.prems(2) only_unsubscribe_subset by blast
      have fuel1: "length (entries em1 ev) - Suc i < fuel" using fuel e1 by simp
      from Suc.IH [OF g1 only1 fuel1, of "calls @ [h]" ?app1] obtain em' xs where
        r: "forEach_from fuel bodies (ev, g) (Suc i) (em1, calls @ [h], ?app1)
              = Some (Returned, (em', (calls @ [h]) @ xs, fold ?fx xs ?app1))"
        and s: "subseq xs (members (drop (Suc i) (entries em1 ev)))"
        and k: "\<forall>pre h post k. xs = pre @ h # post \<longrightarrow> CallUnsubscribe ev k \<in> set (bodies h)
                  \<longrightarrow> k \<notin> set post"
        and u: "undisturbed bodies ev (drop (Suc i) (entries em1 ev))
                  \<longrightarrow> xs = members (drop (Suc i) (entries em1 ev))"
        by blast
      have run: "forEach_from (Suc fuel) bodies (ev, g) i (em, calls, app)
                   = Some (Returned, (em', calls @ h # xs, fold ?fx (h # xs) app))"
        using r r1 es True Some by simp
      have sub: "subseq (h # xs) (members (drop i ?es))"
        using s sub1 True Some subseq_order.order_trans by (auto simp: members_drop)
      have skip: "k \<notin> set post"
        if d: "h # xs = pre @ h' # post" and c: "CallUnsubscribe ev k \<in> set (bodies h')"
        for pre h' post k
      proof (cases pre)
        case Nil
        then have "h' = h" "post = xs" using d by simp_all
        moreover have "k \<notin> set (members (drop (Suc i) (entries em1 ev)))"
          unfolding e1 drop_map
          using members_strike_gone [of "\<lambda>j. CallUnsubscribe ev j \<in> set (bodies h)" k] c \<open>h' = h\<close>
          by simp
        ultimately show ?thesis using subseq_set_subset [OF s] by auto
      next
        case (Cons p pre')
        then have "xs = pre' @ h' # post" using d by simp
        with k c show ?thesis by blast
      qed
      have und: "h # xs = members (drop i ?es)" if "undisturbed bodies ev (drop i ?es)"
      proof -
        from that split Some have
          later: "list_all (spares ev (drop (Suc i) ?es)) (bodies h)"
          and rest: "undisturbed bodies ev (drop (Suc i) ?es)"
          by simp_all
        have same: "drop (Suc i) (entries em1 ev) = drop (Suc i) ?es"
          unfolding e1 drop_map by (rule strike_later_id [OF later])
        with u rest have "xs = members (drop (Suc i) ?es)" by simp
        then show ?thesis using True Some by (simp add: members_drop)
      qed
      from run sub skip und show ?thesis by blast
    qed
  qed
qed






lemma emit_unsubscribers:
  assumes "only_unsubscribe bodies (registered em ev)" and "length (entries em ev) < fuel"
  shows "\<exists>em' xs. emit fuel bodies ev (em, calls, app)
                    = Some (Returned, (em', calls @ xs, fold (\<lambda>h. run_effects (bodies h)) xs app))
           \<and> subseq xs (registered em ev)
           \<and> (\<forall>pre h post k. xs = pre @ h # post \<longrightarrow> CallUnsubscribe ev k \<in> set (bodies h)
                  \<longrightarrow> k \<notin> set post)
           \<and> (undisturbed_pass bodies ev em \<longrightarrow> xs = registered em ev)"
proof (cases "handlers em ev")
  case None
  then show ?thesis by (simp add: registered_def entries_def)
next
  case (Some g)
  from forEach_from_unsubscribers [OF Some, of bodies 0 fuel calls app] assms
  show ?thesis using Some by (simp add: registered_def undisturbed_pass_def)
qed




section \<open>Properties of the Transport Guard\<close>

lemma removeItem_total:
  "\<exists>sw. removeItem fault key w = Inr ((), sw)"
  by (cases w; cases fault)
     (simp_all add: removeItem_def localStorage_removeItem_def)

lemma removeItem_then_getItem:
  assumes "\<not> isAvailable (fst w) \<or> (fault = None \<and> fault' = None)"
    and "removeItem fault key w = Inr ((), sw)"
  shows "\<exists>w'. getItem fault' key sw = Inr (None, w')"
  using assms
  by (cases w)
     (auto simp: removeItem_def getItem_def localStorage_removeItem_def
        localStorage_getItem_def memory_get_def split: if_splits)

lemma removeItem_fault_keeps_store:
  assumes "isAvailable (fst w) \<and> fault \<noteq> None"
    and "removeItem fault key w = Inr ((), sw)"
  shows "snd sw = snd w"
  using assms
  by (cases w) (auto simp: removeItem_def localStorage_removeItem_def)

text \<open>
  Claim C7, as the code has it. A failure whose response status is not 401 is passed on
  unchanged and nothing is touched. On status 401 the interceptor calls
  \<open>storage.removeItem("auth_token")\<close>, which cannot raise, and then
  \<open>authEvents.emit('unauthorized')\<close>, with no \<open>try\<close> around it. In the store the removal
  leaves, which is the one the handlers start in, a read of \<open>auth_token\<close> finds nothing if
  the adapter is on its fallback or the backing store failed neither the removal nor the
  read; if the backing store of a healthy adapter fails the removal, the backing store
  keeps what it held. When the delivery returns, the promise is rejected with the very
  error the interceptor was given; when a handler throws, the promise is rejected with
  what the handler threw; when the delivery does not end, neither does the interceptor.
  The delivery returns whenever the registered handlers return normally and do nothing on
  the bus but call unsubscribe closures; the handlers invoked are then registered
  handlers in registration order, all of them, once each, in a pass that no handler
  disturbs, and the store is changed by what the invoked handlers do to it, in order.
\<close>

theorem unauthorized_guard_outcomes:
  "(response_status err \<noteq> Some 401 \<longrightarrow>
      response_error_interceptor fuel bodies fault err c = Some (Rejected (Original err), c))
   \<and> (response_status err = Some 401 \<longrightarrow>
        (\<exists>sw. removeItem fault ''auth_token'' (storage c) = Inr ((), sw)
           \<and> (\<not> isAvailable (fst (storage c)) \<or> (fault = None \<and> fault' = None) \<longrightarrow>
                 (\<exists>w'. getItem fault' ''auth_token'' sw = Inr (None, w')))
           \<and> (isAvailable (fst (storage c)) \<and> fault \<noteq> None \<longrightarrow> snd sw = snd (storage c))
           \<and> (\<forall>em calls sw'.
                 emit fuel bodies Unauthorized (authEvents c, invoked c, sw)
                   = Some (Returned, (em, calls, sw')) \<longrightarrow>
                 response_error_interceptor fuel bodies fault err c
                   = Some (Rejected (Original err),
                           c\<lparr>storage := sw', authEvents := em, invoked := calls\<rparr>))
           \<and> (\<forall>e em calls sw'.
                 emit fuel bodies Unauthorized (authEvents c, invoked c, sw)
                   = Some (Threw e, (em, calls, sw')) \<longrightarrow>
                 response_error_interceptor fuel bodies fault err c
                   = Some (Rejected (Thrown e),
                           c\<lparr>storage := sw', authEvents := em, invoked := calls\<rparr>))
           \<and> (emit fuel bodies Unauthorized (authEvents c, invoked c, sw) = None \<longrightarrow>
                 response_error_interceptor fuel bodies fault err c = None)
           \<and> (only_unsubscribe bodies (registered (authEvents c) Unauthorized)
                 \<and> length (entries (authEvents c) Unauthorized) < fuel \<longrightarrow>
                 (\<exists>em xs.
                    response_error_interceptor fuel bodies fault err c
                      = Some (Rejected (Original err),
                              c\<lparr>storage := fold (\<lambda>h. run_effects (bodies h)) xs sw,
                                authEvents := em, invoked := invoked c @ xs\<rparr>)
                    \<and> subseq xs (registered (authEvents c) Unauthorized)
                    \<and> (undisturbed_pass bodies Unauthorized (authEvents c) \<longrightarrow>
                          xs = registered (authEvents c) Unauthorized)))))"
proof (cases "response_status err = Some 401")
  case False
  then show ?thesis by (simp add: response_error_interceptor_def)
next
  case True
  obtain sw where rm: "removeItem fault ''auth_token'' (storage c) = Inr ((), sw)"
    using removeItem_total by blast
  have gone: "\<exists>w'. getItem fault' ''auth_token'' sw = Inr (None, w')"
    if "\<not> isAvailable (fst (storage c)) \<or> (fault = None \<and> fault' = None)"
    using removeItem_then_getItem [OF that rm] .
  have kept: "snd sw = snd (storage c)" if "isAvailable (fst (storage c)) \<and> fault \<noteq> None"
    using removeItem_fault_keeps_store [OF that rm] .
  have ret: "response_error_interceptor fuel bodies fault err c
       = Some (Rejected (Original err), c\<lparr>storage := sw', authEvents := em, invoked := calls\<rparr>)"
    if "emit fuel bodies Unauthorized (authEvents c, invoked c, sw)
          = Some (Returned, (em, calls, sw'))"
    for em calls sw'
    using True rm that by (simp add: response_error_interceptor_def)
  have thr: "response_error_interceptor fuel bodies fault err c
       = Some (Rejected (Thrown e), c\<lparr>storage := sw', authEvents := em, invoked := calls\<rparr>)"
    if "emit fuel bodies Unauthorized (authEvents c, invoked c, sw)
          = Some (Threw e, (em, calls, sw'))"
    for e em calls sw'
    using True rm that by (simp add: response_error_interceptor_def)
  have non: "response_error_interceptor fuel bodies fault err c = None"
    if "emit fuel bodies Unauthorized (authEvents c, invoked c, sw) = None"
    using True rm that by (simp add: response_error_interceptor_def)
  have quiet: "\<exists>em xs.
      response_error_interceptor fuel bodies fault err c
        = Some (Rejected (Original err),
                c\<lparr>storage := fold (\<lambda>h. run_effects (bodies h)) xs sw,
                  authEvents := em, invoked := invoked c @ xs\<rparr>)
      \<and> subseq xs (registered (authEvents c) Unauthorized)
      \<and> (undisturbed_pass bodies Unauthorized (authEvents c) \<longrightarrow>
            xs = registered (authEvents c) Unauthorized)"
    if "only_unsubscribe bodies (registered (authEvents c) Unauthorized)
          \<and> length (entries (authEvents c) Unauthorized) < fuel"
  proof -
    from that emit_unsubscribers [of bodies "authEvents c" Unauthorized fuel "invoked c" sw]
    obtain em xs where
      e: "emit fuel bodies Unauthorized (authEvents c, invoked c, sw)
            = Some (Returned, (em, invoked c @ xs, fold (\<lambda>h. run_effects (bodies h)) xs sw))"
      and s: "subseq xs (registered (authEvents c) Unauthorized)"
      and u: "undisturbed_pass bodies Unauthorized (authEvents c) \<longrightarrow>
                xs = registered (authEvents c) Unauthorized"
      by blast
    from ret [OF e] s u show ?thesis by blast
  qed
  have "\<exists>sw. removeItem fault ''auth_token'' (storage c) = Inr ((), sw)
           \<and> (\<not> isAvailable (fst (storage c)) \<or> (fault = None \<and> fault' = None) \<longrightarrow>
                 (\<exists>w'. getItem fault' ''auth_token'' sw = Inr (None, w')))
           \<and> (isAvailable (fst (storage c)) \<and> fault \<noteq> None \<longrightarrow> snd sw = snd (storage c))
           \<and> (\<forall>em calls sw'.
                 emit fuel bodies Unauthorized (authEvents c, invoked c, sw)
                   = Some (Returned, (em, calls, sw')) \<longrightarrow>
                 response_error_interceptor fuel bodies fault err c
                   = Some (Rejected (Original err),
                           c\<lparr>storage := sw', authEvents := em, invoked := calls\<rparr>))
           \<and> (\<forall>e em calls sw'.
                 emit fuel bodies Unauthorized (authEvents c, invoked c, sw)
                   = Some (Threw e, (em, calls, sw')) \<longrightarrow>
                 response_error_interceptor fuel bodies fault err c
                   = Some (Rejected (Thrown e),
                           c\<lparr>storage := sw', authEvents := em, invoked := calls\<rparr>))
           \<and> (emit fuel bodies Unauthorized (authEvents c, invoked c, sw) = None \<longrightarrow>
                 response_error_interceptor fuel bodies fault err c = None)
           \<and> (only_unsubscribe bodies (registered (authEvents c) Unauthorized)
                 \<and> length (entries (authEvents c) Unauthorized) < fuel \<longrightarrow>
                 (\<exists>em xs.
                    response_error_interceptor fuel bodies fault err c
                      = Some (Rejected (Original err),
                              c\<lparr>storage := fold (\<lambda>h. run_effects (bodies h)) xs sw,
                                authEvents := em, invoked := invoked c @ xs\<rparr>)
                    \<and> subseq xs (registered (authEvents c) Unauthorized)
                    \<and> (undisturbed_pass bodies Unauthorized (authEvents c) \<longrightarrow>
                          xs = registered (authEvents c) Unauthorized)))"
  proof (rule exI [of _ sw], intro conjI impI allI)
    show "removeItem fault ''auth_token'' (storage c) = Inr ((), sw)" by (rule rm)
  next
    assume "\<not> isAvailable (fst (storage c)) \<or> (fault = None \<and> fault' = None)"
    then show "\<exists>w'. getItem fault' ''auth_token'' sw = Inr (None, w')" by (rule gone)
  next
    assume "isAvailable (fst (storage c)) \<and> fault \<noteq> None"
    then show "snd sw = snd (storage c)" by (rule kept)
  next
    fix em calls sw'
    assume "emit fuel bodies Unauthorized (authEvents c, invoked c, sw)
              = Some (Returned, (em, calls, sw'))"
    then show "response_error_interceptor fuel bodies fault err c
                 = Some (Rejected (Original err),
                         c\<lparr>storage := sw', authEvents := em, invoked := calls\<rparr>)"
      by (rule ret)
  next
    fix e em calls sw'
    assume "emit fuel bodies Unauthorized (authEvents c, invoked c, sw)
              = Some (Threw e, (em, calls, sw'))"
    then show "response_error_interceptor fuel bodies fault err c
                 = Some (Rejected (Thrown e),
                         c\<lparr>storage := sw', authEvents := em, invoked := calls\<rparr>)"
      by (rule thr)
  next
    assume "emit fuel bodies Unauthorized (authEvents c, invoked c, sw) = None"
    then show "response_error_interceptor fuel bodies fault err c = None" by (rule non)
  next
    assume "only_unsubscribe bodies (registered (authEvents c) Unauthorized)
              \<and> length (entries (authEvents c) Unauthorized) < fuel"
    then show "\<exists>em xs.
        response_error_interceptor fuel bodies fault err c
          = Some (Rejected (Original err),
                  c\<lparr>storage := fold (\<lambda>h. run_effects (bodies h)) xs sw,
                    authEvents := em, invoked := invoked c @ xs\<rparr>)
        \<and> subseq xs (registered (authEvents c) Unauthorized)
        \<and> (undisturbed_pass bodies Unauthorized (authEvents c) \<longrightarrow>
              xs = registered (authEvents c) Unauthorized)"
      by (rule quiet)
  qed
  with True show ?thesis by simp
qed

theorem unauthorized_guard_outcomes_witness:
  "response_status \<lparr>response_status = Some 401, message = ''Request failed''\<rparr> = Some 401
   \<and> isAvailable (fst (storage (\<lparr>storage = (\<lparr>isAvailable = True, memoryStorage = Map.empty\<rparr>, [''auth_token'' \<mapsto> ''t'']),
          authEvents = (snd (on Unauthorized 2 (snd (on Unauthorized 1 AuthEventEmitter_new)))), invoked = []\<rparr>)))
   \<and> only_unsubscribe (\<lambda>h. [] :: storage_world bus_call list) (registered (authEvents (\<lparr>storage = (\<lparr>isAvailable = True, memoryStorage = Map.empty\<rparr>, [''auth_token'' \<mapsto> ''t'']),
          authEvents = (snd (on Unauthorized 2 (snd (on Unauthorized 1 AuthEventEmitter_new)))), invoked = []\<rparr>)) Unauthorized)
   \<and> length (entries (authEvents (\<lparr>storage = (\<lparr>isAvailable = True, memoryStorage = Map.empty\<rparr>, [''auth_token'' \<mapsto> ''t'']),
          authEvents = (snd (on Unauthorized 2 (snd (on Unauthorized 1 AuthEventEmitter_new)))), invoked = []\<rparr>)) Unauthorized) < 3
   \<and> undisturbed_pass (\<lambda>h. [] :: storage_world bus_call list) Unauthorized (authEvents (\<lparr>storage = (\<lparr>isAvailable = True, memoryStorage = Map.empty\<rparr>, [''auth_token'' \<mapsto> ''t'']),
          authEvents = (snd (on Unauthorized 2 (snd (on Unauthorized 1 AuthEventEmitter_new)))), invoked = []\<rparr>))
   \<and> (\<exists>sw em.
        removeItem None ''auth_token'' (storage (\<lparr>storage = (\<lparr>isAvailable = True, memoryStorage = Map.empty\<rparr>, [''auth_token'' \<mapsto> ''t'']),
          authEvents = (snd (on Unauthorized 2 (snd (on Unauthorized 1 AuthEventEmitter_new)))), invoked = []\<rparr>)) = Inr ((), sw)
        \<and> (\<exists>w'. getItem None ''auth_token'' sw = Inr (None, w'))
        \<and> response_error_interceptor 3 (\<lambda>h. []) None \<lparr>response_status = Some 401, message = ''Request failed''\<rparr> (\<lparr>storage = (\<lparr>isAvailable = True, memoryStorage = Map.empty\<rparr>, [''auth_token'' \<mapsto> ''t'']),
          authEvents = (snd (on Unauthorized 2 (snd (on Unauthorized 1 AuthEventEmitter_new)))), invoked = []\<rparr>)
            = Some (Rejected (Original \<lparr>response_status = Some 401, message = ''Request failed''\<rparr>),
                    (\<lparr>storage = (\<lparr>isAvailable = True, memoryStorage = Map.empty\<rparr>, [''auth_token'' \<mapsto> ''t'']),
          authEvents = (snd (on Unauthorized 2 (snd (on Unauthorized 1 AuthEventEmitter_new)))), invoked = []\<rparr>)\<lparr>storage := sw, authEvents := em, invoked := [1, 2]\<rparr>))
   \<and> (\<exists>sw. emit 3 (\<lambda>h. if h = 1 then [Throw TypeError] else []) Unauthorized
               (authEvents (\<lparr>storage = (\<lparr>isAvailable = True, memoryStorage = Map.empty\<rparr>, [''auth_token'' \<mapsto> ''t'']),
          authEvents = (snd (on Unauthorized 2 (snd (on Unauthorized 1 AuthEventEmitter_new)))), invoked = []\<rparr>), invoked (\<lparr>storage = (\<lparr>isAvailable = True, memoryStorage = Map.empty\<rparr>, [''auth_token'' \<mapsto> ''t'']),
          authEvents = (snd (on Unauthorized 2 (snd (on Unauthorized 1 AuthEventEmitter_new)))), invoked = []\<rparr>), sw)
             = Some (Threw TypeError, ((snd (on Unauthorized 2 (snd (on Unauthorized 1 AuthEventEmitter_new)))), [1], sw))
          \<and> response_error_interceptor 3 (\<lambda>h. if h = 1 then [Throw TypeError] else []) None \<lparr>response_status = Some 401, message = ''Request failed''\<rparr> (\<lparr>storage = (\<lparr>isAvailable = True, memoryStorage = Map.empty\<rparr>, [''auth_token'' \<mapsto> ''t'']),
          authEvents = (snd (on Unauthorized 2 (snd (on Unauthorized 1 AuthEventEmitter_new)))), invoked = []\<rparr>)
             = Some (Rejected (Thrown TypeError),
                     (\<lparr>storage = (\<lparr>isAvailable = True, memoryStorage = Map.empty\<rparr>, [''auth_token'' \<mapsto> ''t'']),
          authEvents = (snd (on Unauthorized 2 (snd (on Unauthorized 1 AuthEventEmitter_new)))), invoked = []\<rparr>)\<lparr>storage := sw, authEvents := (snd (on Unauthorized 2 (snd (on Unauthorized 1 AuthEventEmitter_new)))), invoked := [1]\<rparr>))
   \<and> response_error_interceptor 3
        (\<lambda>h. if h = 1 then [CallUnsubscribe Unauthorized 1, CallOn Unauthorized 1] else [])
        None \<lparr>response_status = Some 401, message = ''Request failed''\<rparr> (\<lparr>storage = (\<lparr>isAvailable = True, memoryStorage = Map.empty\<rparr>, [''auth_token'' \<mapsto> ''t'']),
          authEvents = (snd (on Unauthorized 2 (snd (on Unauthorized 1 AuthEventEmitter_new)))), invoked = []\<rparr>)
       = None
   \<and> (\<exists>sw. removeItem (Some SecurityError) ''auth_token'' (storage (\<lparr>storage = (\<lparr>isAvailable = True, memoryStorage = Map.empty\<rparr>, [''auth_token'' \<mapsto> ''t'']),
          authEvents = (snd (on Unauthorized 2 (snd (on Unauthorized 1 AuthEventEmitter_new)))), invoked = []\<rparr>)) = Inr ((), sw)
         \<and> snd sw = snd (storage (\<lparr>storage = (\<lparr>isAvailable = True, memoryStorage = Map.empty\<rparr>, [''auth_token'' \<mapsto> ''t'']),
          authEvents = (snd (on Unauthorized 2 (snd (on Unauthorized 1 AuthEventEmitter_new)))), invoked = []\<rparr>)))"
proof -
  let ?c = "(\<lparr>storage = (\<lparr>isAvailable = True, memoryStorage = Map.empty\<rparr>, [''auth_token'' \<mapsto> ''t'']),
          authEvents = (snd (on Unauthorized 2 (snd (on Unauthorized 1 AuthEventEmitter_new)))), invoked = []\<rparr>)"
  let ?e = "\<lparr>response_status = Some 401, message = ''Request failed''\<rparr>"
  let ?none = "\<lambda>h::nat. [] :: storage_world bus_call list"
  have s: "response_status ?e = Some 401" by simp
  have a: "isAvailable (fst (storage ?c))" by simp
  have u: "only_unsubscribe ?none (registered (authEvents ?c) Unauthorized)"
    by (simp add: bus_defs only_unsubscribe_def)
  have l: "length (entries (authEvents ?c) Unauthorized) < 3"
    by (simp add: bus_defs)
  have p: "undisturbed_pass ?none Unauthorized (authEvents ?c)"
    by (simp add: bus_defs undisturbed_pass_def)
  have r: "registered (authEvents ?c) Unauthorized = [1, 2]"
    by (simp add: bus_defs)
  note T = unauthorized_guard_outcomes [of ?e 3 ?none None ?c None]
  from T [THEN conjunct2, THEN mp, OF s] obtain sw where
    rm: "removeItem None ''auth_token'' (storage ?c) = Inr ((), sw)"
    and gone: "\<not> isAvailable (fst (storage ?c)) \<or> (None = (None :: js_error option)
                 \<and> None = (None :: js_error option))
               \<longrightarrow> (\<exists>w'. getItem None ''auth_token'' sw = Inr (None, w'))"
    and quiet: "only_unsubscribe ?none (registered (authEvents ?c) Unauthorized)
                 \<and> length (entries (authEvents ?c) Unauthorized) < 3 \<longrightarrow>
                 (\<exists>em xs.
                    response_error_interceptor 3 ?none None ?e ?c
                      = Some (Rejected (Original ?e),
                              ?c\<lparr>storage := fold (\<lambda>h. run_effects (?none h)) xs sw,
                                 authEvents := em, invoked := invoked ?c @ xs\<rparr>)
                    \<and> subseq xs (registered (authEvents ?c) Unauthorized)
                    \<and> (undisturbed_pass ?none Unauthorized (authEvents ?c) \<longrightarrow>
                          xs = registered (authEvents ?c) Unauthorized))"
    by blast
  from gone have g: "\<exists>w'. getItem None ''auth_token'' sw = Inr (None, w')" by simp
  from quiet u l obtain em xs where
    run: "response_error_interceptor 3 ?none None ?e ?c
            = Some (Rejected (Original ?e),
                    ?c\<lparr>storage := fold (\<lambda>h. run_effects (?none h)) xs sw,
                       authEvents := em, invoked := invoked ?c @ xs\<rparr>)"
    and xs: "undisturbed_pass ?none Unauthorized (authEvents ?c) \<longrightarrow>
               xs = registered (authEvents ?c) Unauthorized"
    by blast
  from xs p r have "xs = [1, 2]" by simp
  with run rm g have first: "\<exists>sw em.
        removeItem None ''auth_token'' (storage ?c) = Inr ((), sw)
        \<and> (\<exists>w'. getItem None ''auth_token'' sw = Inr (None, w'))
        \<and> response_error_interceptor 3 ?none None ?e ?c
            = Some (Rejected (Original ?e),
                    ?c\<lparr>storage := sw, authEvents := em, invoked := [1, 2]\<rparr>)"
    by auto
  let ?thrower = "\<lambda>h::nat. if h = 1 then [Throw TypeError] else [] :: storage_world bus_call list"
  note T2 = unauthorized_guard_outcomes [of ?e 3 ?thrower None ?c None]
  from T2 [THEN conjunct2, THEN mp, OF s] obtain sw2 where
    thr: "\<forall>e em calls sw'.
            emit 3 ?thrower Unauthorized (authEvents ?c, invoked ?c, sw2)
              = Some (Threw e, (em, calls, sw')) \<longrightarrow>
            response_error_interceptor 3 ?thrower None ?e ?c
              = Some (Rejected (Thrown e),
                      ?c\<lparr>storage := sw', authEvents := em, invoked := calls\<rparr>)"
    by blast
  have te: "emit 3 ?thrower Unauthorized (authEvents ?c, invoked ?c, sw2)
              = Some (Threw TypeError, ((snd (on Unauthorized 2 (snd (on Unauthorized 1 AuthEventEmitter_new)))), [1], sw2))"
    by (simp add: bus_defs eval_nat_numeral)
  from thr te have second: "\<exists>sw. emit 3 ?thrower Unauthorized (authEvents ?c, invoked ?c, sw)
             = Some (Threw TypeError, ((snd (on Unauthorized 2 (snd (on Unauthorized 1 AuthEventEmitter_new)))), [1], sw))
          \<and> response_error_interceptor 3 ?thrower None ?e ?c
             = Some (Rejected (Thrown TypeError),
                     ?c\<lparr>storage := sw, authEvents := (snd (on Unauthorized 2 (snd (on Unauthorized 1 AuthEventEmitter_new)))), invoked := [1]\<rparr>)"
    by blast
  let ?looper = "\<lambda>h::nat. if h = 1 then [CallUnsubscribe Unauthorized 1, CallOn Unauthorized 1]
                   else [] :: storage_world bus_call list"
  note T3 = unauthorized_guard_outcomes [of ?e 3 ?looper None ?c None]
  from T3 [THEN conjunct2, THEN mp, OF s] obtain sw3 where
    non: "emit 3 ?looper Unauthorized (authEvents ?c, invoked ?c, sw3) = None \<longrightarrow>
            response_error_interceptor 3 ?looper None ?e ?c = None"
    by (elim exE conjE) (rule that, assumption)
  have le: "emit 3 ?looper Unauthorized (authEvents ?c, invoked ?c, sw3) = None"
    by (simp add: bus_defs eval_nat_numeral)
  from non le have third: "response_error_interceptor 3 ?looper None ?e ?c = None"
    by blast
  note T4 = unauthorized_guard_outcomes [of ?e 3 ?none "Some SecurityError" ?c None]
  from T4 [THEN conjunct2, THEN mp, OF s] a
  have fourth: "\<exists>sw. removeItem (Some SecurityError) ''auth_token'' (storage ?c) = Inr ((), sw)
         \<and> snd sw = snd (storage ?c)"
    by blast
  from s a u l p first second third fourth show ?thesis by blast
qed

text \<open>
  The claim as written fails, in two ways. With handlers 1 and 2 subscribed to
  \<open>unauthorized\<close>, where handler 1 throws, the caller of a request answered with 401 sees
  what handler 1 threw, not the failure of the request, and handler 2 has not been
  invoked. And when the backing store of a healthy adapter fails the removal, the
  credential is still in the backing store after the interceptor has run.
\<close>

theorem guard_handler_error_replaces_failure_counterexample:
  "map_option (\<lambda>r. (fst r, invoked (snd r)))
     (response_error_interceptor 3 (\<lambda>h. if h = 1 then [Throw TypeError] else []) None \<lparr>response_status = Some 401, message = ''Request failed''\<rparr> (\<lparr>storage = (\<lparr>isAvailable = True, memoryStorage = Map.empty\<rparr>, [''auth_token'' \<mapsto> ''t'']),
          authEvents = (snd (on Unauthorized 2 (snd (on Unauthorized 1 AuthEventEmitter_new)))), invoked = []\<rparr>))
   = Some (Rejected (Thrown TypeError), [1])
   \<and> map_option (\<lambda>r. (fst r, snd (storage (snd r)) ''auth_token''))
        (response_error_interceptor 3 (\<lambda>h. []) (Some SecurityError) \<lparr>response_status = Some 401, message = ''Request failed''\<rparr> (\<lparr>storage = (\<lparr>isAvailable = True, memoryStorage = Map.empty\<rparr>, [''auth_token'' \<mapsto> ''t'']),
          authEvents = (snd (on Unauthorized 2 (snd (on Unauthorized 1 AuthEventEmitter_new)))), invoked = []\<rparr>))
      = Some (Rejected (Original \<lparr>response_status = Some 401, message = ''Request failed''\<rparr>), Some ''t'')"
  by (simp add: response_error_interceptor_def removeItem_def localStorage_removeItem_def
      bus_defs eval_nat_numeral)

section \<open>Properties of the Optimistic Mutation Coordinator\<close>

lemma find_map_overwrite:
  "find (\<lambda>f. fid f = i)
     (map (\<lambda>f. if fid f = i then f\<lparr>upvotes := u, has_upvoted := h\<rparr> else f) fs)
   = map_option (\<lambda>f. f\<lparr>upvotes := u, has_upvoted := h\<rparr>) (find (\<lambda>f. fid f = i) fs)"
  by (induction fs) simp_all

lemma entity_state_overwrite:
  "entity_state (map (\<lambda>f. if fid f = i then f\<lparr>upvotes := u, has_upvoted := h\<rparr> else f) fs) i
   = (case find (\<lambda>f. fid f = i) fs of None \<Rightarrow> None | Some f \<Rightarrow> Some (u, h))"
  by (simp add: entity_state_def find_map_overwrite split: option.splits)

lemma start_known:
  assumes "find (\<lambda>f. fid f = i) rendered = Some t"
  shows "handleUpvoteFeedback_start rendered i st =
     (AwaitingUpvote i t,
      st\<lparr>feedbacks :=
            map (\<lambda>f. if fid f = i
                      then f\<lparr>upvotes := (if has_upvoted t then upvotes t - 1 else upvotes t + 1),
                             has_upvoted := \<not> has_upvoted t\<rparr>
                      else f) (feedbacks st),
          error := []\<rparr>)"
  using assms by (simp add: handleUpvoteFeedback_start_def Let_def)

lemma start_unknown:
  assumes "find (\<lambda>f. fid f = i) rendered = None"
  shows "handleUpvoteFeedback_start rendered i st = (Settled (Resolved ()), st)"
  using assms by (simp add: handleUpvoteFeedback_start_def)

lemma resume_feedbacks:
  "feedbacks (snd (handleUpvoteFeedback_resume i t reply st))
   = map (\<lambda>f. if fid f = i
               then f\<lparr>upvotes := (case reply of Resolved r \<Rightarrow> r_upvotes r | Rejected e \<Rightarrow> upvotes t),
                      has_upvoted :=
                        (case reply of Resolved r \<Rightarrow> r_has_upvoted r | Rejected e \<Rightarrow> has_upvoted t)\<rparr>
               else f) (feedbacks st)"
  by (cases reply) (simp_all add: handleUpvoteFeedback_resume_def Let_def)

lemma find_unique:
  assumes "distinct (map fid fs)" and "find (\<lambda>f. fid f = i) fs = Some t"
    and "f \<in> set fs" and "fid f = i"
  shows "f = t"
proof -
  have "t \<in> set fs" and "fid t = i"
    using assms(2) by (auto simp: find_Some_iff)
  moreover have "inj_on fid (set fs)"
    using assms(1) by (simp add: distinct_map)
  ultimately show ?thesis using assms(3,4) by (auto dest: inj_onD)
qed

text \<open>
  Claim C1, as the code has it. The code keeps no generation of a toggle and compares
  nothing when a reply arrives: each successful reply overwrites the cached
  \<open>{upvotes, has_upvoted}\<close> of the entity. With two toggles of one known entity whose
  replies arrive in reverse order, the final cached state of the entity is the server's
  reply to the first toggle, the one that arrived last; this is so whether or not the
  component was rendered again between the two clicks.
\<close>

theorem reversed_replies_last_arrival_wins:
  assumes "find (\<lambda>f. fid f = i) (feedbacks st0) \<noteq> None"
  shows "\<exists>st. two_toggles_replies_reversed rerendered i r1 r2 st0 = Some st
           \<and> entity_state (feedbacks st) i = Some (r_upvotes r1, r_has_upvoted r1)"
proof -
  from assms obtain t1 where t1: "find (\<lambda>f. fid f = i) (feedbacks st0) = Some t1" by blast
  obtain st1 where
    s1: "handleUpvoteFeedback_start (feedbacks st0) i st0 = (AwaitingUpvote i t1, st1)"
    using start_known [OF t1] by blast
  have k1: "find (\<lambda>f. fid f = i) (feedbacks st1) \<noteq> None"
    using s1 t1 unfolding start_known [OF t1] by (auto simp: find_map_overwrite)
  let ?rendered = "if rerendered then feedbacks st1 else feedbacks st0"
  have "find (\<lambda>f. fid f = i) ?rendered \<noteq> None"
    using k1 assms by simp
  then obtain t2 where t2: "find (\<lambda>f. fid f = i) ?rendered = Some t2" by blast
  obtain st2 where
    s2: "handleUpvoteFeedback_start ?rendered i st1 = (AwaitingUpvote i t2, st2)"
    using start_known [OF t2] by blast
  have k2: "find (\<lambda>f. fid f = i) (feedbacks st2) \<noteq> None"
    using s2 k1 unfolding start_known [OF t2] by (auto simp: find_map_overwrite)
  let ?st3 = "snd (handleUpvoteFeedback_resume i t2 (Resolved r2) st2)"
  let ?st4 = "snd (handleUpvoteFeedback_resume i t1 (Resolved r1) ?st3)"
  have k3: "find (\<lambda>f. fid f = i) (feedbacks ?st3) \<noteq> None"
    using k2 by (simp add: resume_feedbacks find_map_overwrite)
  have "two_toggles_replies_reversed rerendered i r1 r2 st0 = Some ?st4"
    using s1 s2 by (simp add: two_toggles_replies_reversed_def)
  moreover have "entity_state (feedbacks ?st4) i = Some (r_upvotes r1, r_has_upvoted r1)"
    using k3 by (subst resume_feedbacks) (auto simp: entity_state_overwrite)
  ultimately show ?thesis by blast
qed

theorem reversed_replies_last_arrival_wins_witness:
  "find (\<lambda>f. fid f = 1)
     (feedbacks \<lparr>feedbacks = [\<lparr>fid = 1, ftext = ''slow page'', upvotes = 0, user_id = 7,
         user_email = ''a@b.c'', created_at = ''2024'', updated_at = None,
         has_upvoted = False\<rparr>], error = []\<rparr>) \<noteq> None
   \<and> (\<exists>st. two_toggles_replies_reversed True 1
          \<lparr>r_id = 1, r_upvotes = 1, r_has_upvoted = True, r_message = ''Upvoted''\<rparr>
          \<lparr>r_id = 1, r_upvotes = 0, r_has_upvoted = False, r_message = ''Upvote removed''\<rparr>
          \<lparr>feedbacks = [\<lparr>fid = 1, ftext = ''slow page'', upvotes = 0, user_id = 7,
             user_email = ''a@b.c'', created_at = ''2024'', updated_at = None,
             has_upvoted = False\<rparr>], error = []\<rparr> = Some st
        \<and> entity_state (feedbacks st) 1 = Some (1, True))"
  using reversed_replies_last_arrival_wins
    [of 1 "\<lparr>feedbacks = [\<lparr>fid = 1, ftext = ''slow page'', upvotes = 0, user_id = 7,
         user_email = ''a@b.c'', created_at = ''2024'', updated_at = None,
         has_upvoted = False\<rparr>], error = []\<rparr>" True
        "\<lparr>r_id = 1, r_upvotes = 1, r_has_upvoted = True, r_message = ''Upvoted''\<rparr>"
        "\<lparr>r_id = 1, r_upvotes = 0, r_has_upvoted = False, r_message = ''Upvote removed''\<rparr>"]
  by simp

text \<open>
  The claim as written fails. One entity with no votes; the user votes and takes the vote
  back at once. The server answers the first toggle with one vote and the second with none.
  When the answer to the second toggle arrives first, the cache ends with the answer to the
  first toggle (one vote, voted), not with the answer to the second.
\<close>

theorem race_first_reply_wins_counterexample:
  "map_option (\<lambda>st. entity_state (feedbacks st) 1)
     (two_toggles_replies_reversed True 1
        \<lparr>r_id = 1, r_upvotes = 1, r_has_upvoted = True, r_message = ''Upvoted''\<rparr>
        \<lparr>r_id = 1, r_upvotes = 0, r_has_upvoted = False, r_message = ''Upvote removed''\<rparr>
        \<lparr>feedbacks = [\<lparr>fid = 1, ftext = ''slow page'', upvotes = 0, user_id = 7,
           user_email = ''a@b.c'', created_at = ''2024'', updated_at = None,
           has_upvoted = False\<rparr>], error = []\<rparr>)
   = Some (Some (1, True))
   \<and> (1, True) \<noteq> (r_upvotes \<lparr>r_id = 1, r_upvotes = 0, r_has_upvoted = False,
                      r_message = ''Upvote removed''\<rparr>,
                    r_has_upvoted \<lparr>r_id = 1, r_upvotes = 0, r_has_upvoted = False,
                      r_message = ''Upvote removed''\<rparr>)"
  by (simp add: two_toggles_replies_reversed_def handleUpvoteFeedback_start_def
      handleUpvoteFeedback_resume_def entity_state_def Let_def)

text \<open>
  Claim C6, as the code has it. The promise returned by \<open>handleUpvoteFeedback\<close> never
  rejects. For an id that the rendered list does not hold, the function returns at once:
  the promise resolves and the state is untouched. For a known id the optimistic values
  are written in the first turn and the promise resolves in the second turn, after the
  reply has been handled, whether the request succeeded or failed; a failure is reported
  by the \<open>error\<close> message of the state, not by the promise.
\<close>

theorem toggle_promise_always_resolves:
  "(find (\<lambda>f. fid f = i) rendered = None \<longrightarrow>
      handleUpvoteFeedback_start rendered i st = (Settled (Resolved ()), st))
   \<and> (find (\<lambda>f. fid f = i) rendered = Some t \<longrightarrow>
        (\<exists>st'. handleUpvoteFeedback_start rendered i st = (AwaitingUpvote i t, st')
           \<and> feedbacks st'
               = map (\<lambda>f. if fid f = i
                           then f\<lparr>upvotes := (if has_upvoted t then upvotes t - 1
                                                 else upvotes t + 1),
                                  has_upvoted := \<not> has_upvoted t\<rparr>
                           else f) (feedbacks st)))
   \<and> fst (handleUpvoteFeedback_resume i t reply st) = Resolved ()
   \<and> error (snd (handleUpvoteFeedback_resume i t (Rejected e) st))
        = ''Failed to upvote feedback. Please try again.''"
proof (intro conjI impI)
  assume "find (\<lambda>f. fid f = i) rendered = None"
  then show "handleUpvoteFeedback_start rendered i st = (Settled (Resolved ()), st)"
    by (rule start_unknown)
next
  assume "find (\<lambda>f. fid f = i) rendered = Some t"
  from start_known [OF this, of st]
  show "\<exists>st'. handleUpvoteFeedback_start rendered i st = (AwaitingUpvote i t, st')
           \<and> feedbacks st'
               = map (\<lambda>f. if fid f = i
                           then f\<lparr>upvotes := (if has_upvoted t then upvotes t - 1
                                                 else upvotes t + 1),
                                  has_upvoted := \<not> has_upvoted t\<rparr>
                           else f) (feedbacks st)"
    by simp
next
  show "fst (handleUpvoteFeedback_resume i t reply st) = Resolved ()"
    by (cases reply) (simp_all add: handleUpvoteFeedback_resume_def Let_def)
next
  show "error (snd (handleUpvoteFeedback_resume i t (Rejected e) st))
        = ''Failed to upvote feedback. Please try again.''"
    by (simp add: handleUpvoteFeedback_resume_def Let_def)
qed

theorem toggle_promise_always_resolves_witness:
  "find (\<lambda>f. fid f = 7) [] = None
   \<and> handleUpvoteFeedback_start [] 7 \<lparr>feedbacks = [], error = ''old''\<rparr>
       = (Settled (Resolved ()), \<lparr>feedbacks = [], error = ''old''\<rparr>)
   \<and> find (\<lambda>f. fid f = 1) [\<lparr>fid = 1, ftext = ''slow page'', upvotes = 4, user_id = 7,
         user_email = ''a@b.c'', created_at = ''2024'', updated_at = None,
         has_upvoted = True\<rparr>]
       = Some \<lparr>fid = 1, ftext = ''slow page'', upvotes = 4, user_id = 7,
         user_email = ''a@b.c'', created_at = ''2024'', updated_at = None,
         has_upvoted = True\<rparr>
   \<and> (\<exists>st'. handleUpvoteFeedback_start
          [\<lparr>fid = 1, ftext = ''slow page'', upvotes = 4, user_id = 7,
            user_email = ''a@b.c'', created_at = ''2024'', updated_at = None,
            has_upvoted = True\<rparr>] 1
          \<lparr>feedbacks = [\<lparr>fid = 1, ftext = ''slow page'', upvotes = 4, user_id = 7,
            user_email = ''a@b.c'', created_at = ''2024'', updated_at = None,
            has_upvoted = True\<rparr>], error = ''old''\<rparr>
        = (AwaitingUpvote 1 \<lparr>fid = 1, ftext = ''slow page'', upvotes = 4, user_id = 7,
            user_email = ''a@b.c'', created_at = ''2024'', updated_at = None,
            has_upvoted = True\<rparr>, st')
        \<and> feedbacks st' = [\<lparr>fid = 1, ftext = ''slow page'', upvotes = 3, user_id = 7,
            user_email = ''a@b.c'', created_at = ''2024'', updated_at = None,
            has_upvoted = False\<rparr>])"
  using toggle_promise_always_resolves
    [of 7 "[]" "\<lparr>feedbacks = [], error = ''old''\<rparr>"]
    toggle_promise_always_resolves
    [of 1 "[\<lparr>fid = 1, ftext = ''slow page'', upvotes = 4, user_id = 7,
            user_email = ''a@b.c'', created_at = ''2024'', updated_at = None,
            has_upvoted = True\<rparr>]"
        "\<lparr>feedbacks = [\<lparr>fid = 1, ftext = ''slow page'', upvotes = 4, user_id = 7,
            user_email = ''a@b.c'', created_at = ''2024'', updated_at = None,
            has_upvoted = True\<rparr>], error = ''old''\<rparr>"
        "\<lparr>fid = 1, ftext = ''slow page'', upvotes = 4, user_id = 7,
            user_email = ''a@b.c'', created_at = ''2024'', updated_at = None,
            has_upvoted = True\<rparr>"]
  by simp

text \<open>
  The claim as written fails: for an id no entity has, the promise resolves; it does not
  reject.
\<close>

theorem toggle_unknown_id_resolves_counterexample:
  "find (\<lambda>f. fid f = 7) (feedbacks \<lparr>feedbacks = [], error = []\<rparr>) = None
   \<and> fst (handleUpvoteFeedback_start [] 7 \<lparr>feedbacks = [], error = []\<rparr>)
       = Settled (Resolved ())
   \<and> fst (handleUpvoteFeedback_start [] 7 \<lparr>feedbacks = [], error = []\<rparr>)
       \<noteq> Settled (Rejected NetworkError)"
  by (simp add: handleUpvoteFeedback_start_def)

text \<open>
  Claim C8. A toggle of a known entity is started on an up-to-date render, so the snapshot
  \<open>targetFeedback\<close> it takes is what the cache holds for the entity before the toggle.
  When its request fails, the rollback writes the snapshot into whatever cache is current
  then: if the entity is still cached, its \<open>{upvotes, has_upvoted}\<close> after the rollback is
  exactly the snapshot. The entity is cached right after the optimistic write; and when
  nothing happened in between and ids are unique in the cache, the whole cache is as it
  was before the toggle.
\<close>

theorem rollback_restores_snapshot:
  assumes "handleUpvoteFeedback_start (feedbacks st0) i st0 = (AwaitingUpvote i' t, st1)"
    and "find (\<lambda>f. fid f = i) (feedbacks mid) \<noteq> None"
  shows "entity_state (feedbacks (snd (handleUpvoteFeedback_resume i' t (Rejected e) mid))) i
           = Some (upvotes t, has_upvoted t)
     \<and> entity_state (feedbacks st0) i = Some (upvotes t, has_upvoted t)
     \<and> find (\<lambda>f. fid f = i) (feedbacks st1) \<noteq> None
     \<and> (distinct (map fid (feedbacks st0)) \<longrightarrow>
           feedbacks (snd (handleUpvoteFeedback_resume i' t (Rejected e) st1)) = feedbacks st0)"
proof -
  have known: "find (\<lambda>f. fid f = i) (feedbacks st0) = Some t" and i': "i' = i"
    using assms(1)
    by (auto simp: handleUpvoteFeedback_start_def Let_def split: option.splits)
  let ?opt = "\<lambda>f. if fid f = i
                   then f\<lparr>upvotes := (if has_upvoted t then upvotes t - 1 else upvotes t + 1),
                          has_upvoted := \<not> has_upvoted t\<rparr>
                   else f"
  let ?undo = "\<lambda>f. if fid f = i
                   then f\<lparr>upvotes := upvotes t, has_upvoted := has_upvoted t\<rparr> else f"
  have st1: "feedbacks st1 = map ?opt (feedbacks st0)"
    using assms(1) unfolding start_known [OF known] by auto
  have after: "feedbacks (snd (handleUpvoteFeedback_resume i' t (Rejected e) s))
                 = map ?undo (feedbacks s)" for s
    by (simp add: resume_feedbacks i')
  have k1: "find (\<lambda>f. fid f = i) (feedbacks st1) \<noteq> None"
    using known by (simp add: st1 find_map_overwrite)
  have a: "entity_state (feedbacks (snd (handleUpvoteFeedback_resume i' t (Rejected e) mid))) i
           = Some (upvotes t, has_upvoted t)"
    using assms(2) unfolding after by (auto simp: entity_state_overwrite)
  have b: "entity_state (feedbacks st0) i = Some (upvotes t, has_upvoted t)"
    using known by (simp add: entity_state_def)
  have c: "feedbacks (snd (handleUpvoteFeedback_resume i' t (Rejected e) st1)) = feedbacks st0"
    if d: "distinct (map fid (feedbacks st0))"
  proof -
    have "?undo (?opt f) = f" if "f \<in> set (feedbacks st0)" for f
    proof (cases "fid f = i")
      case True
      then have "f = t" using find_unique [OF d known that] by simp
      then show ?thesis by simp
    next
      case False
      then show ?thesis by simp
    qed
    then have "map (\<lambda>f. ?undo (?opt f)) (feedbacks st0) = feedbacks st0"
      by (intro map_idI) blast
    then show ?thesis unfolding after st1 map_map comp_def .
  qed
  from a b c k1 show ?thesis by blast
qed

theorem rollback_restores_snapshot_witness:
  "handleUpvoteFeedback_start
     (feedbacks \<lparr>feedbacks = [\<lparr>fid = 1, ftext = ''slow page'', upvotes = 4, user_id = 7,
        user_email = ''a@b.c'', created_at = ''2024'', updated_at = None,
        has_upvoted = True\<rparr>], error = []\<rparr>) 1
     \<lparr>feedbacks = [\<lparr>fid = 1, ftext = ''slow page'', upvotes = 4, user_id = 7,
        user_email = ''a@b.c'', created_at = ''2024'', updated_at = None,
        has_upvoted = True\<rparr>], error = []\<rparr>
   = (AwaitingUpvote 1 \<lparr>fid = 1, ftext = ''slow page'', upvotes = 4, user_id = 7,
        user_email = ''a@b.c'', created_at = ''2024'', updated_at = None,
        has_upvoted = True\<rparr>,
      \<lparr>feedbacks = [\<lparr>fid = 1, ftext = ''slow page'', upvotes = 3, user_id = 7,
        user_email = ''a@b.c'', created_at = ''2024'', updated_at = None,
        has_upvoted = False\<rparr>], error = []\<rparr>)
   \<and> find (\<lambda>f. fid f = 1)
        (feedbacks \<lparr>feedbacks = [\<lparr>fid = 1, ftext = ''slow page'', upvotes = 3, user_id = 7,
           user_email = ''a@b.c'', created_at = ''2024'', updated_at = None,
           has_upvoted = False\<rparr>], error = []\<rparr>) \<noteq> None
   \<and> distinct (map fid [\<lparr>fid = 1, ftext = ''slow page'', upvotes = 4, user_id = 7,
        user_email = ''a@b.c'', created_at = ''2024'', updated_at = None,
        has_upvoted = True\<rparr>])
   \<and> entity_state (feedbacks (snd (handleUpvoteFeedback_resume 1
        \<lparr>fid = 1, ftext = ''slow page'', upvotes = 4, user_id = 7,
          user_email = ''a@b.c'', created_at = ''2024'', updated_at = None,
          has_upvoted = True\<rparr> (Rejected NetworkError)
        \<lparr>feedbacks = [\<lparr>fid = 1, ftext = ''slow page'', upvotes = 3, user_id = 7,
          user_email = ''a@b.c'', created_at = ''2024'', updated_at = None,
          has_upvoted = False\<rparr>], error = []\<rparr>))) 1 = Some (4, True)"
proof -
  have s: "handleUpvoteFeedback_start
     (feedbacks \<lparr>feedbacks = [\<lparr>fid = 1, ftext = ''slow page'', upvotes = 4, user_id = 7,
        user_email = ''a@b.c'', created_at = ''2024'', updated_at = None,
        has_upvoted = True\<rparr>], error = []\<rparr>) 1
     \<lparr>feedbacks = [\<lparr>fid = 1, ftext = ''slow page'', upvotes = 4, user_id = 7,
        user_email = ''a@b.c'', created_at = ''2024'', updated_at = None,
        has_upvoted = True\<rparr>], error = []\<rparr>
   = (AwaitingUpvote 1 \<lparr>fid = 1, ftext = ''slow page'', upvotes = 4, user_id = 7,
        user_email = ''a@b.c'', created_at = ''2024'', updated_at = None,
        has_upvoted = True\<rparr>,
      \<lparr>feedbacks = [\<lparr>fid = 1, ftext = ''slow page'', upvotes = 3, user_id = 7,
        user_email = ''a@b.c'', created_at = ''2024'', updated_at = None,
        has_upvoted = False\<rparr>], error = []\<rparr>)"
    by (simp add: handleUpvoteFeedback_start_def Let_def)
  have m: "find (\<lambda>f. fid f = 1)
        (feedbacks \<lparr>feedbacks = [\<lparr>fid = 1, ftext = ''slow page'', upvotes = 3, user_id = 7,
           user_email = ''a@b.c'', created_at = ''2024'', updated_at = None,
           has_upvoted = False\<rparr>], error = []\<rparr>) \<noteq> None"
    by simp
  from rollback_restores_snapshot [OF s m, of NetworkError] s m show ?thesis by simp
qed

section \<open>Properties of the Session Monitor\<close>

lemmas monitor_defs =
  startMonitoring_def stopMonitoring_def isTokenExpired_def setTimeout_def clearTimeout_def
  observe_def showExpiryWarning_def showRefreshFailed_def showRefreshSuccess_def
  attemptTokenRefresh_def updateCountdown_def showLogoutCountdown_def handleTokenExpiry_def
  TokenManager_new_def setOnTokenExpiry_def setOnTokenRefresh_def tokenManager_def
  setupTokenExpiryHandling_def page_at_def Let_def

lemmas decode_defs =
  getTimeUntilExpiry_def getTokenExpiry_def decodeToken_def decodeToken_try_def
  claims_platform_def base64url_to_base64_def

lemma expiry_needs_token:
  assumes "getTokenExpiry P token = Some e"
  shows "token \<noteq> []"
  using assms by (auto simp: getTokenExpiry_def decodeToken_def decodeToken_try_def)

lemma ten_minutes_left:
  assumes "getTokenExpiry P token = Some (Num (now + 600000))" and "0 \<le> now"
  shows "getTimeUntilExpiry P now token = Some 600000"
  using assms by (simp add: getTimeUntilExpiry_def)

lemma ten_minutes_schedule:
  assumes "getTokenExpiry P token = Some (Num (now + 600000))" and "0 \<le> now"
  shows "startMonitoring P token (page_at now (setupTokenExpiryHandling tokenManager)) =
    \<lparr>clock = now,
     timers =
       [\<lparr>timer_id = 1, due = now + 300000, action = ShowExpiryWarning\<rparr>,
        \<lparr>timer_id = 2, due = now + 480000, action = AttemptTokenRefresh\<rparr>,
        \<lparr>timer_id = 3, due = now + 600000, action = HandleTokenExpiry\<rparr>],
     next_timer_id = 4, trace = [],
     manager =
       \<lparr>warningTimer = Some 1, refreshTimer = Some 2, logoutTimer = Some 3,
        config = \<lparr>warningMinutes = 5, refreshMinutes = 2, logoutCountdownSeconds = 30\<rparr>,
        onTokenExpiry = True, onTokenRefresh = Some (Resolved False)\<rparr>\<rparr>"
  using ten_minutes_left [OF assms] expiry_needs_token [OF assms(1)]
  by (simp add: monitor_defs)

text \<open>
  Claim C2, as the code has it. A credential expires ten minutes from now; the manager is
  the exported one with its default windows and the callbacks \<open>AuthService\<close> sets. The
  warning is shown at 5 minutes and the refresh callback is invoked at 8 minutes. At 10
  minutes the expiry timer fires and the logout countdown starts at 30; the expiry
  callback is invoked when the countdown has run down, at 10 minutes and 30 seconds. The
  list is everything the run does up to then: the manager's methods show and remove
  notices, invoke the two callbacks, and do nothing else (the class holds no reference to
  the event emitter).
\<close>

theorem ten_minute_credential_timeline:
  assumes "getTokenExpiry P token = Some (Num (now + 600000))" and "0 \<le> now"
  shows "map_option trace
           (advance 40 (now + 630000)
              (startMonitoring P token (page_at now (setupTokenExpiryHandling tokenManager))))
   = Some
  [(now + 300000, WarningShown 5),
   (now + 310000, NotificationRemoved),
   (now + 480000, RefreshCallbackInvoked),
   (now + 480000, RefreshFailedShown),
   (now + 485000, NotificationRemoved),
   (now + 600000, CountdownShown 30),
   (now + 601000, CountdownShown 29),
   (now + 602000, CountdownShown 28),
   (now + 603000, CountdownShown 27),
   (now + 604000, CountdownShown 26),
   (now + 605000, CountdownShown 25),
   (now + 606000, CountdownShown 24),
   (now + 607000, CountdownShown 23),
   (now + 608000, CountdownShown 22),
   (now + 609000, CountdownShown 21),
   (now + 610000, CountdownShown 20),
   (now + 611000, CountdownShown 19),
   (now + 612000, CountdownShown 18),
   (now + 613000, CountdownShown 17),
   (now + 614000, CountdownShown 16),
   (now + 615000, CountdownShown 15),
   (now + 616000, CountdownShown 14),
   (now + 617000, CountdownShown 13),
   (now + 618000, CountdownShown 12),
   (now + 619000, CountdownShown 11),
   (now + 620000, CountdownShown 10),
   (now + 621000, CountdownShown 9),
   (now + 622000, CountdownShown 8),
   (now + 623000, CountdownShown 7),
   (now + 624000, CountdownShown 6),
   (now + 625000, CountdownShown 5),
   (now + 626000, CountdownShown 4),
   (now + 627000, CountdownShown 3),
   (now + 628000, CountdownShown 2),
   (now + 629000, CountdownShown 1),
   (now + 630000, CountdownShown 0),
   (now + 630000, ExpiryCallbackInvoked),
   (now + 630000, ModalRemoved)]"
  unfolding ten_minutes_schedule [OF assms]
  by (simp add: advance.simps monitor_defs)

theorem ten_minute_credential_timeline_witness:
  "getTokenExpiry (claims_platform (JObject [(''sub'', JString ''7''), (''exp'', JNumber 1600),
       (''iat'', JNumber 1000)])) ''h.p.s'' = Some (Num (1000000 + 600000))
   \<and> (0::real) \<le> 1000000
   \<and> map_option trace
        (advance 40 (1000000 + 630000)
           (startMonitoring
              (claims_platform (JObject [(''sub'', JString ''7''), (''exp'', JNumber 1600),
                 (''iat'', JNumber 1000)])) ''h.p.s''
              (page_at 1000000 (setupTokenExpiryHandling tokenManager))))
      = Some
     [(1300000, WarningShown 5),
      (1310000, NotificationRemoved),
      (1480000, RefreshCallbackInvoked),
      (1480000, RefreshFailedShown),
      (1485000, NotificationRemoved),
      (1600000, CountdownShown 30),
      (1601000, CountdownShown 29),
      (1602000, CountdownShown 28),
      (1603000, CountdownShown 27),
      (1604000, CountdownShown 26),
      (1605000, CountdownShown 25),
      (1606000, CountdownShown 24),
      (1607000, CountdownShown 23),
      (1608000, CountdownShown 22),
      (1609000, CountdownShown 21),
      (1610000, CountdownShown 20),
      (1611000, CountdownShown 19),
      (1612000, CountdownShown 18),
      (1613000, CountdownShown 17),
      (1614000, CountdownShown 16),
      (1615000, CountdownShown 15),
      (1616000, CountdownShown 14),
      (1617000, CountdownShown 13),
      (1618000, CountdownShown 12),
      (1619000, CountdownShown 11),
      (1620000, CountdownShown 10),
      (1621000, CountdownShown 9),
      (1622000, CountdownShown 8),
      (1623000, CountdownShown 7),
      (1624000, CountdownShown 6),
      (1625000, CountdownShown 5),
      (1626000, CountdownShown 4),
      (1627000, CountdownShown 3),
      (1628000, CountdownShown 2),
      (1629000, CountdownShown 1),
      (1630000, CountdownShown 0),
      (1630000, ExpiryCallbackInvoked),
      (1630000, ModalRemoved)]"
proof -
  have e: "getTokenExpiry (claims_platform (JObject [(''sub'', JString ''7''),
       (''exp'', JNumber 1600), (''iat'', JNumber 1000)])) ''h.p.s''
     = Some (Num (1000000 + 600000))"
    by (simp add: decode_defs)
  have n: "(0::real) \<le> 1000000" by simp
  from ten_minute_credential_timeline [OF e n] e show ?thesis by simp
qed

text \<open>
  The claim as written fails. For the credential above, when ten minutes have passed the
  countdown has just been shown and the expiry callback has not been invoked.
\<close>

theorem expiry_callback_waits_for_countdown_counterexample:
  "getTimeUntilExpiry (claims_platform (JObject [(''sub'', JString ''7''), (''exp'', JNumber 1600),
       (''iat'', JNumber 1000)])) 1000000 ''h.p.s'' = Some 600000
   \<and> map_option trace
        (advance 40 1600000
           (startMonitoring
              (claims_platform (JObject [(''sub'', JString ''7''), (''exp'', JNumber 1600),
                 (''iat'', JNumber 1000)])) ''h.p.s''
              (page_at 1000000 (setupTokenExpiryHandling tokenManager))))
      = Some
     [(1300000, WarningShown 5),
      (1310000, NotificationRemoved),
      (1480000, RefreshCallbackInvoked),
      (1480000, RefreshFailedShown),
      (1485000, NotificationRemoved),
      (1600000, CountdownShown 30)]"
  by (simp add: decode_defs advance.simps monitor_defs)







text \<open>
  Claim C9. A credential is malformed when it does not split into three segments at the
  dots, when decoding or parsing its payload throws, or when the decoded claims have no
  \<open>exp\<close>. For every such credential \<open>isTokenExpired\<close> is true at any time. An exception
  thrown while decoding stops at the \<open>catch\<close> of \<open>decodeToken\<close>, which returns \<open>null\<close>;
  \<open>startMonitoring\<close> on such a credential does what \<open>stopMonitoring\<close> does.
\<close>

theorem malformed_credential_is_expired:
  assumes "length (split_dot token) \<noteq> 3
           \<or> (\<exists>e. decodeToken_try P token = Inl e)
           \<or> get_exp (decodeToken P token) = None"
  shows "isTokenExpired P now token
     \<and> ((\<exists>e. decodeToken_try P token = Inl e) \<longrightarrow> decodeToken P token = JNull)
     \<and> startMonitoring P token b = stopMonitoring b"
proof -
  have none: "getTokenExpiry P token = None"
    using assms
  proof (elim disjE)
    assume "length (split_dot token) \<noteq> 3"
    then show ?thesis
      by (simp add: getTokenExpiry_def decodeToken_def decodeToken_try_def)
  next
    assume "\<exists>e. decodeToken_try P token = Inl e"
    then show ?thesis
      by (auto simp: getTokenExpiry_def decodeToken_def)
  next
    assume "get_exp (decodeToken P token) = None"
    then show ?thesis
      by (simp add: getTokenExpiry_def Let_def)
  qed
  then have expired: "isTokenExpired P t token" for t
    by (simp add: isTokenExpired_def getTimeUntilExpiry_def)
  then have "startMonitoring P token b = stopMonitoring b"
    by (simp add: startMonitoring_def Let_def)
  with expired show ?thesis by (auto simp: decodeToken_def)
qed

theorem malformed_credential_is_expired_witness:
  "length (split_dot ''not-a-token'') \<noteq> 3
   \<and> isTokenExpired (claims_platform (JObject [(''exp'', JNumber 1600)])) 0 ''not-a-token''
   \<and> decodeToken_try (claims_platform (JObject [(''exp'', JNumber 1600)])
         \<lparr>atob := (\<lambda>s. Inl InvalidCharacterError)\<rparr>) ''h.p.s'' = Inl InvalidCharacterError
   \<and> decodeToken (claims_platform (JObject [(''exp'', JNumber 1600)])
         \<lparr>atob := (\<lambda>s. Inl InvalidCharacterError)\<rparr>) ''h.p.s'' = JNull
   \<and> isTokenExpired (claims_platform (JObject [(''exp'', JNumber 1600)])
         \<lparr>atob := (\<lambda>s. Inl InvalidCharacterError)\<rparr>) 0 ''h.p.s''
   \<and> get_exp (decodeToken (claims_platform (JObject [(''sub'', JString ''7'')])) ''h.p.s'') = None
   \<and> isTokenExpired (claims_platform (JObject [(''sub'', JString ''7'')])) 0 ''h.p.s''"
proof -
  have a: "length (split_dot ''not-a-token'') \<noteq> 3" by simp
  have b: "decodeToken_try (claims_platform (JObject [(''exp'', JNumber 1600)])
         \<lparr>atob := (\<lambda>s. Inl InvalidCharacterError)\<rparr>) ''h.p.s'' = Inl InvalidCharacterError"
    by (simp add: decode_defs)
  have c: "get_exp (decodeToken (claims_platform (JObject [(''sub'', JString ''7'')])) ''h.p.s'')
             = None"
    by (simp add: decode_defs)
  from malformed_credential_is_expired
         [of "''not-a-token''" "claims_platform (JObject [(''exp'', JNumber 1600)])" 0
             "page_at 0 tokenManager"]
       malformed_credential_is_expired
         [of "''h.p.s''" "claims_platform (JObject [(''exp'', JNumber 1600)])
            \<lparr>atob := (\<lambda>s. Inl InvalidCharacterError)\<rparr>" 0 "page_at 0 tokenManager"]
       malformed_credential_is_expired
         [of "''h.p.s''" "claims_platform (JObject [(''sub'', JString ''7'')])" 0
             "page_at 0 tokenManager"]
       a b c
  show ?thesis by simp
qed

end
